theory Spec2Isabelle
  imports Main
begin

section \<open>Data model\<close>

text \<open>
  Money is a Django \<open>DecimalField\<close> with two decimal places; it is modelled as an
  unbounded integer number of hundredths, so \<open>Decimal.quantize(Decimal('0.01'))\<close> on a
  stored value is the identity. The column width (\<open>max_digits\<close>) is not modelled.
  Time is \<open>timezone.now()\<close> in seconds; one request reads one value \<open>now\<close>.
\<close>

type_synonym money = int
type_synonym time = int

text \<open>\<open>django.contrib.auth.models.User\<close>, as far as the views read it.\<close>

record user =
  u_id :: nat
  is_staff :: bool
  is_superuser :: bool

text \<open>\<open>members.models.Member\<close>: the fields the views read and write.\<close>

record member =
  m_id :: nat
  m_user :: "nat option"
  rfid_card_number :: string
  full_name :: string
  email :: string
  role :: string
  balance :: money
  is_active :: bool
  last_transaction :: "time option"

datatype transaction_type = deposit | deduction

text \<open>\<open>members.models.BalanceTransaction\<close>: one ledger entry.\<close>

record balance_transaction =
  bt_member :: nat
  bt_transaction_type :: transaction_type
  bt_amount :: money
  balance_before :: money
  balance_after :: money
  bt_notes :: string
  bt_created_at :: time

text \<open>\<open>mobile_api.models.FundTransferOTP\<close>.\<close>

record fund_transfer_otp =
  otp_id :: nat
  otp_member :: nat
  recipient_rfid :: string
  otp_amount :: money
  otp_notes :: string
  otp_code :: string
  created_at :: time
  expires_at :: time
  is_used :: bool
  verified_at :: "time option"

text \<open>\<open>transactions.models.TransactionItem\<close> and \<open>Transaction\<close>, and the stock
  counter of \<open>inventory.models.Product\<close>.\<close>

record transaction_item =
  item_product :: "nat option"
  quantity :: int

record sale_transaction =
  t_id :: nat
  transaction_number :: string
  t_member :: "nat option"
  total_amount :: money
  payment_method :: string
  amount_paid :: money
  amount_from_balance :: money
  status :: string
  t_notes :: string
  items :: "transaction_item list"

record product =
  p_id :: nat
  stock_quantity :: int

text \<open>The database: one list of rows per table. \<open>otp_seq\<close> is the next primary key
  of the OTP table.\<close>

record db =
  members :: "member list"
  balance_transactions :: "balance_transaction list"
  fund_transfer_otps :: "fund_transfer_otp list"
  otp_seq :: nat
  transactions :: "sale_transaction list"
  products :: "product list"

text \<open>A request: the authenticated user (\<open>None\<close> for an anonymous one), the member id
  kept in the session, and the parsed body.\<close>

record 'd request =
  req_user :: "user option"
  session_member_id :: "nat option"
  data :: 'd

text \<open>An amount read from a JSON body: absent, not a decimal number, or a number of
  hundredths.\<close>

datatype amount_field = AmountMissing | AmountMalformed | AmountValue money

text \<open>The bodies of the four requests. \<open>None\<close> in a field is an absent key.\<close>

record transfer_data =
  td_recipient_rfid :: string
  td_amount :: money
  td_notes :: string

record refill_data =
  rf_member_id :: "nat option"
  rf_amount :: amount_field
  rf_notes :: string

record update_data =
  ut_transaction_id :: "nat option"
  ut_status :: "string option"
  ut_payment_method :: "string option"
  ut_amount_paid :: amount_field
  ut_amount_from_balance :: amount_field
  ut_notes :: "string option"

record refund_data =
  rd_transaction_id :: "nat option"
  rd_reason :: string

section \<open>Errors, exceptions and the ORM\<close>

text \<open>
  The error responses of the views, named after the specification's taxonomy where a
  response corresponds to one:
  \<^item> \<open>OtpCodeRequired\<close>: 400 "OTP code is required";
  \<^item> \<open>OtpNotFound\<close>: 400 "Invalid or expired OTP code";
  \<^item> \<open>OtpExpired\<close>: 400 "OTP code has expired. Please request a new one.";
  \<^item> \<open>OtpAlreadyUsed\<close>: the taxonomy's name; no response of the views is mapped to it;
  \<^item> \<open>InsufficientBalance\<close>: 400 "Insufficient balance";
  \<^item> \<open>InvalidAmount\<close>: "Transfer amount must be greater than zero" and
    "Amount must be greater than zero";
  \<^item> \<open>MissingContact\<close>: 400 "Email address is required for OTP verification";
  \<^item> \<open>RecipientNotFound\<close>: 404 "Recipient member not found";
  \<^item> \<open>SelfTransfer\<close>: 400 "Cannot transfer funds to yourself";
  \<^item> \<open>AccountNotFound\<close>: 404 "Member account not found" and "Member not found";
  \<^item> \<open>SessionExpired\<close>: 401 "Member account not found or session expired";
  \<^item> \<open>AuthenticationRequired\<close>: 401 "Authentication required", and the redirect of
    \<open>login_required\<close>;
  \<^item> \<open>PermissionDenied\<close>: the 403 responses;
  \<^item> \<open>TransferError\<close>: 500 "An error occurred during the transfer. Please try again.";
  \<^item> \<open>OtpCreationFailed\<close>: 500 "Failed to create OTP. Please try again.";
  \<^item> \<open>InvalidSerializer\<close>: 400 with the serializer's errors;
  \<^item> \<open>InvalidJSON\<close>: "Invalid JSON data" and "Invalid JSON payload";
  \<^item> \<open>TransactionIdRequired\<close>: "Transaction ID is required";
  \<^item> \<open>MemberIdRequired\<close>: "Member ID is required";
  \<^item> \<open>AmountRequired\<close>: "Amount is required";
  \<^item> \<open>InvalidAmountFormat\<close>: "Invalid amount format";
  \<^item> \<open>TransactionNotFound\<close>: 404 "Transaction not found";
  \<^item> \<open>NotRefundable\<close>: "Transaction not found or not eligible for refund";
  \<^item> \<open>NotOwnTransaction\<close>: 403 "You can only refund your own transactions";
  \<^item> \<open>ServerError\<close>: "Server error: ..." of an \<open>except Exception\<close> clause;
  \<^item> \<open>UnhandledException\<close>: an exception that no clause of the view catches.
\<close>

datatype error =
    OtpCodeRequired | OtpNotFound | OtpExpired | OtpAlreadyUsed
  | InsufficientBalance | InvalidAmount | MissingContact
  | RecipientNotFound | SelfTransfer
  | AccountNotFound | SessionExpired | AuthenticationRequired | PermissionDenied
  | TransferError | OtpCreationFailed | InvalidSerializer | InvalidJSON
  | TransactionIdRequired | MemberIdRequired | AmountRequired | InvalidAmountFormat
  | TransactionNotFound | NotRefundable | NotOwnTransaction
  | ServerError | UnhandledException

text \<open>Python exceptions raised below the views.\<close>

datatype exn = ObjectDoesNotExist | MultipleObjects | StorageFailure | BalanceRejected

text \<open>\<open>Model.objects.get(...)\<close>: the one row that satisfies the filter.\<close>

datatype 'a get_result = DoesNotExist | MultipleObjectsReturned | Found 'a

definition objects_get :: "('a \<Rightarrow> bool) \<Rightarrow> 'a list \<Rightarrow> 'a get_result" where
  "objects_get P rows =
     (case filter P rows of
        [] \<Rightarrow> DoesNotExist
      | [x] \<Rightarrow> Found x
      | _ \<Rightarrow> MultipleObjectsReturned)"

text \<open>
  The writes of the ORM. Each can raise (a storage failure); which ones do is the
  environment's choice, given to every operation as a predicate on writes. A computation
  returns its result or the exception together with the database as written so far.
\<close>

datatype db_write =
    MemberSave nat
  | BalanceTransactionCreate nat
  | OtpSave nat
  | OtpDelete nat
  | OtpCreate nat
  | ProductSave nat
  | TransactionSave nat

type_synonym faults = "db_write \<Rightarrow> bool"

definition no_faults :: faults where
  "no_faults = (\<lambda>w. False)"

type_synonym 'a run = "db \<Rightarrow> (exn + 'a) \<times> db"

definition and_then :: "'a run \<Rightarrow> ('a \<Rightarrow> 'b run) \<Rightarrow> 'b run" where
  "and_then f g s = (case f s of (Inl e, s') \<Rightarrow> (Inl e, s') | (Inr v, s') \<Rightarrow> g v s')"

definition perform :: "faults \<Rightarrow> db_write \<Rightarrow> (db \<Rightarrow> db) \<Rightarrow> unit run" where
  "perform raises w f s = (if raises w then (Inl StorageFailure, s) else (Inr (), f s))"

text \<open>\<open>with transaction.atomic():\<close> an exception inside the block rolls the database back
  to its state at entry and propagates.\<close>

definition atomic :: "'a run \<Rightarrow> 'a run" where
  "atomic body s = (case body s of (Inl e, s') \<Rightarrow> (Inl e, s) | (Inr v, s') \<Rightarrow> (Inr v, s'))"

text \<open>\<open>str.strip()\<close>, on the ASCII characters that \<open>str.isspace\<close> accepts.\<close>

definition is_space :: "char \<Rightarrow> bool" where
  "is_space c = (let n = (of_char c :: nat) in (9 \<le> n \<and> n \<le> 13) \<or> (28 \<le> n \<and> n \<le> 32))"

definition strip :: "string \<Rightarrow> string" where
  "strip s = rev (dropWhile is_space (rev (dropWhile is_space s)))"

section \<open>Member rows\<close>

text \<open>\<open>instance.save(update_fields=[...])\<close> is an UPDATE of the rows with the instance's
  primary key.\<close>

definition update_member :: "nat \<Rightarrow> (member \<Rightarrow> member) \<Rightarrow> db \<Rightarrow> db" where
  "update_member pk f s = s\<lparr>members := map (\<lambda>m. if m_id m = pk then f m else m) (members s)\<rparr>"

definition save_balance :: "faults \<Rightarrow> nat \<Rightarrow> money \<Rightarrow> unit run" where
  "save_balance raises pk b = perform raises (MemberSave pk) (update_member pk (\<lambda>m. m\<lparr>balance := b\<rparr>))"

definition save_last_transaction :: "faults \<Rightarrow> nat \<Rightarrow> time \<Rightarrow> unit run" where
  "save_last_transaction raises pk t =
     perform raises (MemberSave pk) (update_member pk (\<lambda>m. m\<lparr>last_transaction := Some t\<rparr>))"

text \<open>\<open>instance.refresh_from_db()\<close>: the row is read again by primary key.\<close>

definition refresh_from_db :: "nat \<Rightarrow> member run" where
  "refresh_from_db pk s =
     (case objects_get (\<lambda>m. m_id m = pk) (members s) of
        Found m \<Rightarrow> (Inr m, s)
      | DoesNotExist \<Rightarrow> (Inl ObjectDoesNotExist, s)
      | MultipleObjectsReturned \<Rightarrow> (Inl MultipleObjects, s))"

text \<open>\<open>BalanceTransaction.objects.create(...)\<close> appends one ledger entry and returns it.\<close>

definition create_balance_transaction ::
  "faults \<Rightarrow> balance_transaction \<Rightarrow> balance_transaction run" where
  "create_balance_transaction raises e =
     and_then
       (perform raises (BalanceTransactionCreate (bt_member e))
          (\<lambda>s. s\<lparr>balance_transactions := balance_transactions s @ [e]\<rparr>))
       (\<lambda>_ s. (Inr e, s))"

section \<open>Fund transfer OTPs (mobile\_api/models.py)\<close>

definition is_valid :: "time \<Rightarrow> fund_transfer_otp \<Rightarrow> bool" where
  "is_valid now otp = (if is_used otp then False else if now > expires_at otp then False else True)"

definition mark_as_used :: "faults \<Rightarrow> time \<Rightarrow> fund_transfer_otp \<Rightarrow> unit run" where
  "mark_as_used raises now otp =
     perform raises (OtpSave (otp_id otp))
       (\<lambda>s. s\<lparr>fund_transfer_otps :=
                 map (\<lambda>r. if otp_id r = otp_id otp then r\<lparr>is_used := True, verified_at := Some now\<rparr> else r)
                   (fund_transfer_otps s)\<rparr>)"

text \<open>\<open>timedelta(minutes=10)\<close> in seconds.\<close>

definition timedelta_minutes :: "int \<Rightarrow> time" where
  "timedelta_minutes n = n * 60"

text \<open>\<open>FundTransferOTP.create_otp\<close>. The six digits of \<open>generate_otp\<close> are drawn at
  random; the draw is the argument \<open>generated\<close>.\<close>

definition create_otp ::
  "faults \<Rightarrow> time \<Rightarrow> string \<Rightarrow> member \<Rightarrow> string \<Rightarrow> money \<Rightarrow> string \<Rightarrow> fund_transfer_otp run" where
  "create_otp raises now generated mem rfid amt nts =
     and_then
       (perform raises (OtpDelete (m_id mem))
          (\<lambda>s. s\<lparr>fund_transfer_otps :=
                    filter (\<lambda>r. \<not> (otp_member r = m_id mem \<and> is_used r = False)) (fund_transfer_otps s)\<rparr>))
       (\<lambda>_ s.
          let otp = \<lparr>otp_id = otp_seq s, otp_member = m_id mem, recipient_rfid = rfid,
                     otp_amount = amt, otp_notes = nts, otp_code = generated, created_at = now,
                     expires_at = now + timedelta_minutes 10, is_used = False,
                     verified_at = None\<rparr>
          in and_then
               (perform raises (OtpCreate (m_id mem))
                  (\<lambda>s. s\<lparr>fund_transfer_otps := otp # fund_transfer_otps s,
                          otp_seq := Suc (otp_seq s)\<rparr>))
               (\<lambda>_ s. (Inr otp, s)) s)"

section \<open>The transfer protocol (mobile\_api/views.py)\<close>

text \<open>\<open>MobileMemberPermission.has_permission\<close>.\<close>

definition has_permission :: "db \<Rightarrow> 'd request \<Rightarrow> exn + bool" where
  "has_permission s request =
     (case req_user request of
        Some u \<Rightarrow> Inr True
      | None \<Rightarrow>
          (case session_member_id request of
             None \<Rightarrow> Inr False
           | Some mid \<Rightarrow>
               if mid = 0 then Inr False
               else (case objects_get (\<lambda>m. m_id m = mid \<and> is_active m) (members s) of
                       Found m \<Rightarrow> Inr True
                     | DoesNotExist \<Rightarrow> Inr False
                     | MultipleObjectsReturned \<Rightarrow> Inl MultipleObjects)))"

text \<open>\<open>get_member_from_request\<close>. \<open>QuerySet.first()\<close> is the first row of the table.\<close>

definition get_member_from_request :: "db \<Rightarrow> 'd request \<Rightarrow> error + member" where
  "get_member_from_request s request =
     (case req_user request of
        Some u \<Rightarrow>
          (case objects_get (\<lambda>m. m_user m = Some (u_id u) \<and> is_active m) (members s) of
             Found m \<Rightarrow> Inr m
           | DoesNotExist \<Rightarrow> Inl AccountNotFound
           | MultipleObjectsReturned \<Rightarrow>
               (case filter (\<lambda>m. m_user m = Some (u_id u) \<and> is_active m) (members s) of
                  [] \<Rightarrow> Inl AccountNotFound
                | m # rest \<Rightarrow> Inr m))
      | None \<Rightarrow>
          (case session_member_id request of
             None \<Rightarrow> Inl AuthenticationRequired
           | Some mid \<Rightarrow>
               if mid = 0 then Inl AuthenticationRequired
               else (case objects_get (\<lambda>m. m_id m = mid \<and> is_active m) (members s) of
                       Found m \<Rightarrow> Inr m
                     | DoesNotExist \<Rightarrow> Inl SessionExpired
                     | MultipleObjectsReturned \<Rightarrow> Inl UnhandledException)))"

text \<open>\<open>request_transfer_otp\<close>, after the serializer (\<open>None\<close>: the body is not valid).
  The result on success is \<open>expires_in\<close>; the code goes out by email only.\<close>

definition request_transfer_otp ::
  "faults \<Rightarrow> time \<Rightarrow> string \<Rightarrow> db \<Rightarrow> transfer_data option request \<Rightarrow> (error + nat) \<times> db" where
  "request_transfer_otp raises now generated s request =
     (case has_permission s request of
        Inl e \<Rightarrow> (Inl UnhandledException, s)
      | Inr False \<Rightarrow> (Inl PermissionDenied, s)
      | Inr True \<Rightarrow>
     (case get_member_from_request s request of
        Inl e \<Rightarrow> (Inl e, s)
      | Inr mem \<Rightarrow>
     (case data request of
        None \<Rightarrow> (Inl InvalidSerializer, s)
      | Some d \<Rightarrow>
          let rfid = strip (td_recipient_rfid d);
              amt = td_amount d;
              nts = strip (td_notes d)
          in if amt \<le> 0 then (Inl InvalidAmount, s)
             else if balance mem < amt then (Inl InsufficientBalance, s)
             else if email mem = [] then (Inl MissingContact, s)
             else (case objects_get (\<lambda>m. rfid_card_number m = rfid \<and> is_active m) (members s) of
                     DoesNotExist \<Rightarrow> (Inl RecipientNotFound, s)
                   | MultipleObjectsReturned \<Rightarrow> (Inl UnhandledException, s)
                   | Found recipient \<Rightarrow>
                       if m_id recipient = m_id mem then (Inl SelfTransfer, s)
                       else (case create_otp raises now generated mem rfid amt nts s of
                               (Inl e, s') \<Rightarrow> (Inl OtpCreationFailed, s')
                             | (Inr otp, s') \<Rightarrow> (Inr 600, s'))))))"

text \<open>The success response of \<open>verify_transfer_otp\<close>.\<close>

record transfer_response =
  tr_recipient :: member
  tr_amount :: money
  tr_sender_balance_before :: money
  tr_sender_balance_after :: money
  sender_transaction :: balance_transaction
  recipient_transaction :: balance_transaction

definition transfer_notes :: "string \<Rightarrow> member \<Rightarrow> fund_transfer_otp \<Rightarrow> string" where
  "transfer_notes direction party otp =
     ''Fund transfer '' @ direction @ '' '' @ full_name party @ '' ('' @ rfid_card_number party @ '')''
       @ (if otp_notes otp \<noteq> [] then '' - '' @ otp_notes otp else [])"

text \<open>The body of the \<open>with db_transaction.atomic():\<close> block of \<open>verify_transfer_otp\<close>.\<close>

definition transfer_body ::
  "faults \<Rightarrow> time \<Rightarrow> member \<Rightarrow> member \<Rightarrow> fund_transfer_otp \<Rightarrow> transfer_response run" where
  "transfer_body raises now mem recipient otp =
     (let amt = otp_amount otp;
          sender_balance_before = balance mem;
          recipient_balance_before = balance recipient
      in
      and_then (mark_as_used raises now otp) (\<lambda>_.
      and_then (save_balance raises (m_id mem) (sender_balance_before - amt)) (\<lambda>_.
      and_then (refresh_from_db (m_id mem)) (\<lambda>mem1.
      and_then (create_balance_transaction raises
                  \<lparr>bt_member = m_id mem1, bt_transaction_type = deduction, bt_amount = amt,
                   balance_before = sender_balance_before, balance_after = balance mem1,
                   bt_notes = transfer_notes ''to'' recipient otp, bt_created_at = now\<rparr>) (\<lambda>sender_tx.
      and_then (save_balance raises (m_id recipient) (recipient_balance_before + amt)) (\<lambda>_.
      and_then (refresh_from_db (m_id recipient)) (\<lambda>recipient1.
      and_then (create_balance_transaction raises
                  \<lparr>bt_member = m_id recipient1, bt_transaction_type = deposit, bt_amount = amt,
                   balance_before = recipient_balance_before, balance_after = balance recipient1,
                   bt_notes = transfer_notes ''from'' mem1 otp, bt_created_at = now\<rparr>) (\<lambda>recipient_tx.
      and_then (save_last_transaction raises (m_id mem1) now) (\<lambda>_.
      and_then (save_last_transaction raises (m_id recipient1) now) (\<lambda>_ s.
        (Inr \<lparr>tr_recipient = recipient1, tr_amount = amt,
              tr_sender_balance_before = sender_balance_before,
              tr_sender_balance_after = balance mem1,
              sender_transaction = sender_tx, recipient_transaction = recipient_tx\<rparr>, s)))))))))))"

text \<open>\<open>verify_transfer_otp\<close>. The completion emails are sent after the block and change
  no row; a failure to send them is logged and swallowed.\<close>

definition verify_transfer_otp ::
  "faults \<Rightarrow> time \<Rightarrow> db \<Rightarrow> string option request \<Rightarrow> (error + transfer_response) \<times> db" where
  "verify_transfer_otp raises now s request =
     (case has_permission s request of
        Inl e \<Rightarrow> (Inl UnhandledException, s)
      | Inr False \<Rightarrow> (Inl PermissionDenied, s)
      | Inr True \<Rightarrow>
     (case get_member_from_request s request of
        Inl e \<Rightarrow> (Inl e, s)
      | Inr mem \<Rightarrow>
          let code = strip (case data request of None \<Rightarrow> [] | Some c \<Rightarrow> c)
          in if code = [] then (Inl OtpCodeRequired, s)
             else (case objects_get (\<lambda>r. otp_member r = m_id mem \<and> otp_code r = code \<and> is_used r = False)
                          (fund_transfer_otps s) of
                     DoesNotExist \<Rightarrow> (Inl OtpNotFound, s)
                   | MultipleObjectsReturned \<Rightarrow> (Inl UnhandledException, s)
                   | Found otp \<Rightarrow>
                       if \<not> is_valid now otp then (Inl OtpExpired, s)
                       else if balance mem < otp_amount otp then (Inl InsufficientBalance, s)
                       else (case objects_get (\<lambda>m. rfid_card_number m = recipient_rfid otp \<and> is_active m)
                                    (members s) of
                               DoesNotExist \<Rightarrow> (Inl RecipientNotFound, s)
                             | MultipleObjectsReturned \<Rightarrow> (Inl UnhandledException, s)
                             | Found recipient \<Rightarrow>
                                 if m_id recipient = m_id mem then (Inl SelfTransfer, s)
                                 else (case atomic (transfer_body raises now mem recipient otp) s of
                                         (Inl e, s') \<Rightarrow> (Inl TransferError, s')
                                       | (Inr r, s') \<Rightarrow> (Inr r, s'))))))"

section \<open>The administrative operations (admin\_panel/views.py)\<close>

text \<open>The role checks. Every exception of the member lookup is swallowed.\<close>

definition linked_member_has_role :: "db \<Rightarrow> user \<Rightarrow> string list \<Rightarrow> bool" where
  "linked_member_has_role s u roles =
     (case objects_get (\<lambda>m. m_user m = Some (u_id u)) (members s) of
        Found m \<Rightarrow> role m \<in> set roles \<and> is_active m
      | DoesNotExist \<Rightarrow> False
      | MultipleObjectsReturned \<Rightarrow> False)"

definition is_admin_user :: "db \<Rightarrow> user \<Rightarrow> bool" where
  "is_admin_user s u = (if is_superuser u then True else linked_member_has_role s u [''admin''])"

definition is_cashier_or_admin :: "db \<Rightarrow> user \<Rightarrow> bool" where
  "is_cashier_or_admin s u =
     (if is_staff u \<or> is_superuser u then True
      else linked_member_has_role s u [''cashier'', ''admin''])"

definition is_staff_role :: "db \<Rightarrow> user \<Rightarrow> bool" where
  "is_staff_role s u =
     (if is_staff u \<and> \<not> is_superuser u then True else linked_member_has_role s u [''staff''])"

text \<open>Modelled from the spec: \<open>Member.add_balance\<close> of members/models.py is missing from
  the sources. The specification's \<open>applyDelta\<close> reads the current balance, adds the
  amount, rejects a negative result, and stores the sum; the instance keeps the new
  balance.\<close>

definition add_balance :: "faults \<Rightarrow> member \<Rightarrow> money \<Rightarrow> member run" where
  "add_balance raises mem amt =
     (let after = balance mem + amt
      in if after < 0 then (\<lambda>s. (Inl BalanceRejected, s))
         else and_then (save_balance raises (m_id mem) after)
                (\<lambda>_ s. (Inr (mem\<lparr>balance := after\<rparr>), s)))"

text \<open>The part of \<open>api_refill_balance\<close> that finds who performs the refill.\<close>

definition performed_by_role :: "db \<Rightarrow> user \<Rightarrow> exn + string" where
  "performed_by_role s u =
     (if is_staff_role s u \<and> \<not> is_admin_user s u then
        (case objects_get (\<lambda>m. m_user m = Some (u_id u) \<and> is_active m) (members s) of
           Found staff_member \<Rightarrow> Inr (if role staff_member = ''staff'' then ''staff'' else ''admin'')
         | DoesNotExist \<Rightarrow> Inr ''admin''
         | MultipleObjectsReturned \<Rightarrow> Inl MultipleObjects)
      else Inr ''admin'')"

text \<open>\<open>api_refill_balance\<close>. \<open>AmountMissing\<close> is any falsy value of the key. The
  notification email to the administrator changes no row and its failure is swallowed.
  An exception inside the \<open>try\<close> ends in the last \<open>except Exception\<close> clause, with
  the rows written before it left as they are.\<close>

definition api_refill_balance ::
  "faults \<Rightarrow> time \<Rightarrow> db \<Rightarrow> refill_data option request \<Rightarrow> (error + member) \<times> db" where
  "api_refill_balance raises now s request =
     (case req_user request of
        None \<Rightarrow> (Inl AuthenticationRequired, s)
      | Some u \<Rightarrow>
          if \<not> (is_admin_user s u \<or> is_staff_role s u) then (Inl PermissionDenied, s)
          else (case data request of
             None \<Rightarrow> (Inl InvalidJSON, s)
           | Some d \<Rightarrow>
               let nts = strip (rf_notes d)
               in (case rf_member_id d of
                  None \<Rightarrow> (Inl MemberIdRequired, s)
                | Some member_id \<Rightarrow>
                    if member_id = 0 then (Inl MemberIdRequired, s)
                    else (case rf_amount d of
                       AmountMissing \<Rightarrow> (Inl AmountRequired, s)
                     | AmountMalformed \<Rightarrow> (Inl InvalidAmountFormat, s)
                     | AmountValue amt \<Rightarrow>
                         if amt \<le> 0 then (Inl InvalidAmount, s)
                         else (case objects_get (\<lambda>m. m_id m = member_id \<and> is_active m) (members s) of
                            DoesNotExist \<Rightarrow> (Inl AccountNotFound, s)
                          | MultipleObjectsReturned \<Rightarrow> (Inl ServerError, s)
                          | Found mem \<Rightarrow>
                              (case performed_by_role s u of
                                 Inl e \<Rightarrow> (Inl ServerError, s)
                               | Inr by_role \<Rightarrow>
                                   (case and_then (add_balance raises mem amt) (\<lambda>mem1.
                                         and_then (create_balance_transaction raises
                                            \<lparr>bt_member = m_id mem1, bt_transaction_type = deposit,
                                             bt_amount = amt, balance_before = balance mem,
                                             balance_after = balance mem1,
                                             bt_notes = ''Balance refill by '' @ by_role
                                               @ (if nts \<noteq> [] then ''. '' @ nts else []),
                                             bt_created_at = now\<rparr>)
                                           (\<lambda>_ s'. (Inr mem1, s'))) s of
                                      (Inl e, s') \<Rightarrow> (Inl ServerError, s')
                                    | (Inr mem1, s') \<Rightarrow> (Inr mem1, s'))))))))"

text \<open>Modelled from the spec: \<open>Transaction.STATUS_CHOICES\<close> of transactions/models.py is
  missing from the sources. The specification's status enumeration is pending, completed,
  cancelled; these are the keys of \<open>dict(Transaction.STATUS_CHOICES)\<close>.\<close>

definition STATUS_CHOICES :: "string list" where
  "STATUS_CHOICES = [''pending'', ''completed'', ''cancelled'']"

text \<open>\<open>Transaction.PAYMENT_METHODS\<close> is missing from the sources too and the
  specification does not list it: the table (code, label) is a parameter of the
  operations that read it.\<close>

definition get_payment_method_display :: "(string \<times> string) list \<Rightarrow> sale_transaction \<Rightarrow> string" where
  "get_payment_method_display methods t =
     (case map_of methods (payment_method t) of Some label \<Rightarrow> label | None \<Rightarrow> payment_method t)"

text \<open>\<open>transaction.save()\<close>: an UPDATE of the row with the instance's primary key.\<close>

definition save_transaction :: "faults \<Rightarrow> sale_transaction \<Rightarrow> unit run" where
  "save_transaction raises t =
     perform raises (TransactionSave (t_id t))
       (\<lambda>s. s\<lparr>transactions := map (\<lambda>r. if t_id r = t_id t then t else r) (transactions s)\<rparr>)"

text \<open>The field updates of \<open>api_update_transaction\<close>, in the order of the source. For an
  amount, \<open>AmountMissing\<close> is an absent key.\<close>

definition update_amount :: "amount_field \<Rightarrow> money \<Rightarrow> money" where
  "update_amount f old = (case f of AmountValue v \<Rightarrow> (if v \<ge> 0 then v else old) | _ \<Rightarrow> old)"

definition update_fields :: "(string \<times> string) list \<Rightarrow> update_data \<Rightarrow> sale_transaction \<Rightarrow> sale_transaction" where
  "update_fields methods d t =
     (let t1 = (case ut_status d of
                  None \<Rightarrow> t
                | Some v \<Rightarrow> if strip v \<in> set STATUS_CHOICES then t\<lparr>status := strip v\<rparr> else t);
          t2 = (case ut_payment_method d of
                  None \<Rightarrow> t1
                | Some v \<Rightarrow> if strip v \<in> set (map fst methods) then t1\<lparr>payment_method := strip v\<rparr> else t1);
          t3 = t2\<lparr>amount_paid := update_amount (ut_amount_paid d) (amount_paid t2)\<rparr>;
          t4 = t3\<lparr>amount_from_balance := update_amount (ut_amount_from_balance d) (amount_from_balance t3)\<rparr>
      in (case ut_notes d of None \<Rightarrow> t4 | Some v \<Rightarrow> t4\<lparr>t_notes := strip v\<rparr>))"

text \<open>\<open>api_update_transaction\<close>. No \<open>try\<close> surrounds the lookup and the save.\<close>

definition api_update_transaction ::
  "faults \<Rightarrow> (string \<times> string) list \<Rightarrow> db \<Rightarrow> update_data option request
     \<Rightarrow> (error + sale_transaction) \<times> db" where
  "api_update_transaction raises methods s request =
     (case req_user request of
        None \<Rightarrow> (Inl AuthenticationRequired, s)
      | Some u \<Rightarrow>
          if \<not> is_admin_user s u then (Inl PermissionDenied, s)
          else (case data request of
             None \<Rightarrow> (Inl InvalidJSON, s)
           | Some d \<Rightarrow>
               (case ut_transaction_id d of
                  None \<Rightarrow> (Inl TransactionIdRequired, s)
                | Some transaction_id \<Rightarrow>
                    if transaction_id = 0 then (Inl TransactionIdRequired, s)
                    else (case objects_get (\<lambda>t. t_id t = transaction_id) (transactions s) of
                       DoesNotExist \<Rightarrow> (Inl TransactionNotFound, s)
                     | MultipleObjectsReturned \<Rightarrow> (Inl UnhandledException, s)
                     | Found t \<Rightarrow>
                         let t' = update_fields methods d t
                         in (case save_transaction raises t' s of
                               (Inl e, s') \<Rightarrow> (Inl UnhandledException, s')
                             | (Inr _, s') \<Rightarrow> (Inr t', s'))))))"

text \<open>The stock loop of \<open>api_process_refund\<close>: each line item reads its product by
  primary key, adds the quantity, and saves the product.\<close>

definition save_product :: "faults \<Rightarrow> product \<Rightarrow> unit run" where
  "save_product raises p =
     perform raises (ProductSave (p_id p))
       (\<lambda>s. s\<lparr>products := map (\<lambda>r. if p_id r = p_id p then p else r) (products s)\<rparr>)"

fun restore_stock :: "faults \<Rightarrow> transaction_item list \<Rightarrow> unit run" where
  "restore_stock raises [] s = (Inr (), s)"
| "restore_stock raises (item # rest) s =
     (case item_product item of
        None \<Rightarrow> restore_stock raises rest s
      | Some pid \<Rightarrow>
          (case objects_get (\<lambda>p. p_id p = pid) (products s) of
             DoesNotExist \<Rightarrow> (Inl ObjectDoesNotExist, s)
           | MultipleObjectsReturned \<Rightarrow> (Inl MultipleObjects, s)
           | Found p \<Rightarrow>
               (case save_product raises (p\<lparr>stock_quantity := stock_quantity p + quantity item\<rparr>) s of
                  (Inl e, s') \<Rightarrow> (Inl e, s')
                | (Inr _, s') \<Rightarrow> restore_stock raises rest s')))"

text \<open>The success response of \<open>api_process_refund\<close>: the transaction and the balances of
  the receipt.\<close>

record refund_response =
  rr_transaction :: sale_transaction
  rr_balance_before :: "money option"
  rr_balance_after :: "money option"

text \<open>\<open>select_related('member')\<close>: the owning member row joined to the transaction.\<close>

definition related_member :: "db \<Rightarrow> sale_transaction \<Rightarrow> exn + member option" where
  "related_member s t =
     (case t_member t of
        None \<Rightarrow> Inr None
      | Some mid \<Rightarrow>
          (case objects_get (\<lambda>m. m_id m = mid) (members s) of
             Found m \<Rightarrow> Inr (Some m)
           | DoesNotExist \<Rightarrow> Inr None
           | MultipleObjectsReturned \<Rightarrow> Inl MultipleObjects))"

text \<open>The access check of \<open>api_process_refund\<close>: \<open>None\<close> lets the refund go on.\<close>

definition refund_access :: "db \<Rightarrow> user \<Rightarrow> sale_transaction \<Rightarrow> error option" where
  "refund_access s u t =
     (if is_cashier_or_admin s u then None
      else (case filter (\<lambda>m. m_user m = Some (u_id u) \<and> is_active m) (members s) of
              [] \<Rightarrow> Some PermissionDenied
            | user_member # rest \<Rightarrow>
                if t_member t \<noteq> Some (m_id user_member) then Some NotOwnTransaction else None))"

text \<open>The mutations of \<open>api_process_refund\<close>, in the order of the source: the credit and
  its ledger entry, the stock, the status, the refresh of the member.\<close>

definition refund_notes :: "(string \<times> string) list \<Rightarrow> sale_transaction \<Rightarrow> string \<Rightarrow> string" where
  "refund_notes methods t reason =
     ''Refund for transaction '' @ transaction_number t @ '' (Original: ''
       @ get_payment_method_display methods t @ '')''
       @ (if reason \<noteq> [] then ''. '' @ reason else [])"

definition refund_body ::
  "faults \<Rightarrow> (string \<times> string) list \<Rightarrow> time \<Rightarrow> sale_transaction \<Rightarrow> member option \<Rightarrow> string
     \<Rightarrow> refund_response run" where
  "refund_body raises methods now t mem reason =
     and_then
       (case mem of
          None \<Rightarrow> (\<lambda>s. (Inr (None, None), s))
        | Some m \<Rightarrow>
            and_then (add_balance raises m (total_amount t)) (\<lambda>m1.
            and_then (create_balance_transaction raises
                        \<lparr>bt_member = m_id m1, bt_transaction_type = deposit,
                         bt_amount = total_amount t, balance_before = balance m,
                         balance_after = balance m1,
                         bt_notes = refund_notes methods t reason, bt_created_at = now\<rparr>)
              (\<lambda>_ s. (Inr (Some (balance m), Some (balance m1)), s))))
       (\<lambda>(before, after).
          and_then (restore_stock raises (items t)) (\<lambda>_.
          let t' = t\<lparr>status := ''cancelled'',
                     t_notes := (if reason \<noteq> [] then ''Refunded. '' @ reason else ''Refunded'')\<rparr>
          in and_then (save_transaction raises t') (\<lambda>_.
             and_then (case mem of
                         None \<Rightarrow> (\<lambda>s. (Inr (), s))
                       | Some m \<Rightarrow> and_then (refresh_from_db (m_id m)) (\<lambda>_ s. (Inr (), s)))
               (\<lambda>_ s. (Inr \<lparr>rr_transaction = t', rr_balance_before = before,
                            rr_balance_after = after\<rparr>, s)))))"

text \<open>\<open>api_process_refund\<close>. The whole body is one \<open>try\<close> whose last clause,
  \<open>except Exception\<close>, answers "Server error"; no \<open>transaction.atomic()\<close> surrounds the
  mutations, so the rows written before an exception stay written.\<close>

definition api_process_refund ::
  "faults \<Rightarrow> (string \<times> string) list \<Rightarrow> time \<Rightarrow> db \<Rightarrow> refund_data option request
     \<Rightarrow> (error + refund_response) \<times> db" where
  "api_process_refund raises methods now s request =
     (case req_user request of
        None \<Rightarrow> (Inl AuthenticationRequired, s)
      | Some u \<Rightarrow>
          (case data request of
             None \<Rightarrow> (Inl InvalidJSON, s)
           | Some d \<Rightarrow>
               let reason = strip (rd_reason d)
               in (case rd_transaction_id d of
                  None \<Rightarrow> (Inl TransactionIdRequired, s)
                | Some transaction_id \<Rightarrow>
                    if transaction_id = 0 then (Inl TransactionIdRequired, s)
                    else (case objects_get (\<lambda>t. t_id t = transaction_id \<and> status t = ''completed'')
                                 (transactions s) of
                       DoesNotExist \<Rightarrow> (Inl NotRefundable, s)
                     | MultipleObjectsReturned \<Rightarrow> (Inl ServerError, s)
                     | Found t \<Rightarrow>
                         (case related_member s t of
                            Inl e \<Rightarrow> (Inl ServerError, s)
                          | Inr mem \<Rightarrow>
                              (case refund_access s u t of
                                 Some e \<Rightarrow> (Inl e, s)
                               | None \<Rightarrow>
                                   (case refund_body raises methods now t mem reason s of
                                      (Inl e, s') \<Rightarrow> (Inl ServerError, s')
                                    | (Inr r, s') \<Rightarrow> (Inr r, s'))))))))"

section \<open>Observations on the database\<close>

text \<open>The balance stored for an account, the total of all balances, and the sum of the
  ledger of an account: deposits count positive, deductions negative.\<close>

definition balance_of :: "db \<Rightarrow> nat \<Rightarrow> money" where
  "balance_of s pk = sum_list (map balance (filter (\<lambda>m. m_id m = pk) (members s)))"

definition total_balance :: "db \<Rightarrow> money" where
  "total_balance s = sum_list (map balance (members s))"

definition signed_amount :: "balance_transaction \<Rightarrow> money" where
  "signed_amount e =
     (case bt_transaction_type e of deposit \<Rightarrow> bt_amount e | deduction \<Rightarrow> - bt_amount e)"

definition ledger_of :: "db \<Rightarrow> nat \<Rightarrow> balance_transaction list" where
  "ledger_of s pk = filter (\<lambda>e. bt_member e = pk) (balance_transactions s)"

definition ledger_sum :: "db \<Rightarrow> nat \<Rightarrow> money" where
  "ledger_sum s pk = sum_list (map signed_amount (ledger_of s pk))"

text \<open>The deposits and the deductions of an account, each summed apart.\<close>

definition deposit_sum :: "db \<Rightarrow> nat \<Rightarrow> money" where
  "deposit_sum s pk =
     sum_list (map bt_amount
       (filter (\<lambda>e. bt_member e = pk \<and> bt_transaction_type e = deposit) (balance_transactions s)))"

definition deduction_sum :: "db \<Rightarrow> nat \<Rightarrow> money" where
  "deduction_sum s pk =
     sum_list (map bt_amount
       (filter (\<lambda>e. bt_member e = pk \<and> bt_transaction_type e = deduction) (balance_transactions s)))"

definition ledger_consistent :: "db \<Rightarrow> bool" where
  "ledger_consistent s = (\<forall>m \<in> set (members s). balance m = ledger_sum s (m_id m))"

text \<open>Two databases with the same member rows and the same ledger.\<close>

definition same_accounts :: "db \<Rightarrow> db \<Rightarrow> bool" where
  "same_accounts s s' \<longleftrightarrow>
     members s' = members s \<and> balance_transactions s' = balance_transactions s"

text \<open>The unused transfer intents of a sender.\<close>

definition unused_otps :: "db \<Rightarrow> nat \<Rightarrow> fund_transfer_otp list" where
  "unused_otps s pk = filter (\<lambda>r. otp_member r = pk \<and> is_used r = False) (fund_transfer_otps s)"

definition at_most_one_unused :: "db \<Rightarrow> bool" where
  "at_most_one_unused s = (\<forall>r \<in> set (fund_transfer_otps s). length (unused_otps s (otp_member r)) \<le> 1)"

section \<open>Sequences of the core operations\<close>

text \<open>One request of the core: a refill, a transfer request, a transfer execution or a
  refund, each with the storage faults, the clock and the random draw of its run.\<close>

datatype operation =
    Refill faults time "refill_data option request"
  | RequestTransfer faults time string "transfer_data option request"
  | ExecuteTransfer faults time "string option request"
  | Refund faults "(string \<times> string) list" time "refund_data option request"

fun apply_operation :: "db \<Rightarrow> operation \<Rightarrow> db" where
  "apply_operation s (Refill raises now request) = snd (api_refill_balance raises now s request)"
| "apply_operation s (RequestTransfer raises now generated request) =
     snd (request_transfer_otp raises now generated s request)"
| "apply_operation s (ExecuteTransfer raises now request) =
     snd (verify_transfer_otp raises now s request)"
| "apply_operation s (Refund raises methods now request) =
     snd (api_process_refund raises methods now s request)"

definition run_operations :: "db \<Rightarrow> operation list \<Rightarrow> db" where
  "run_operations s ops = foldl apply_operation s ops"

text \<open>The ledger append of a refill or of a refund is a write of its own, after the
  balance write and outside any atomic block: the operations in which that append does not
  raise for the accounts \<open>pks\<close>. A transfer runs both writes inside one atomic block and
  needs no such condition.\<close>

fun ledger_append_succeeds :: "nat list \<Rightarrow> operation \<Rightarrow> bool" where
  "ledger_append_succeeds pks (Refill raises now request) =
     list_all (\<lambda>pk. \<not> raises (BalanceTransactionCreate pk)) pks"
| "ledger_append_succeeds pks (Refund raises methods now request) =
     list_all (\<lambda>pk. \<not> raises (BalanceTransactionCreate pk)) pks"
| "ledger_append_succeeds pks (RequestTransfer raises now generated request) = True"
| "ledger_append_succeeds pks (ExecuteTransfer raises now request) = True"

section \<open>Example data\<close>

text \<open>The scenarios of the specification: member A holds 500.00 and member B 50.00, A has
  an unused intent of 200.00 to B's card; member C holds 20.00 and has a completed sale of
  150.00 with one line item of two units of a product.\<close>

definition member_a :: member where
  "member_a = \<lparr>m_id = 1, m_user = Some 1, rfid_card_number = ''1001'', full_name = ''Member A'',
     email = ''a@example.com'', role = ''member'', balance = 50000, is_active = True,
     last_transaction = None\<rparr>"

definition member_b :: member where
  "member_b = \<lparr>m_id = 2, m_user = Some 2, rfid_card_number = ''1002'', full_name = ''Member B'',
     email = ''b@example.com'', role = ''member'', balance = 5000, is_active = True,
     last_transaction = None\<rparr>"

definition member_c :: member where
  "member_c = \<lparr>m_id = 3, m_user = Some 3, rfid_card_number = ''1003'', full_name = ''Member C'',
     email = ''c@example.com'', role = ''member'', balance = 2000, is_active = True,
     last_transaction = None\<rparr>"

definition admin_user :: user where
  "admin_user = \<lparr>u_id = 9, is_staff = True, is_superuser = True\<rparr>"

definition opening_entry :: "nat \<Rightarrow> money \<Rightarrow> balance_transaction" where
  "opening_entry pk amt = \<lparr>bt_member = pk, bt_transaction_type = deposit, bt_amount = amt,
     balance_before = 0, balance_after = amt, bt_notes = ''Balance refill by admin'',
     bt_created_at = 0\<rparr>"

definition intent_a :: fund_transfer_otp where
  "intent_a = \<lparr>otp_id = 1, otp_member = 1, recipient_rfid = ''1002'', otp_amount = 20000,
     otp_notes = [], otp_code = ''123456'', created_at = 1000, expires_at = 1600,
     is_used = False, verified_at = None\<rparr>"

definition sale_c :: sale_transaction where
  "sale_c = \<lparr>t_id = 1, transaction_number = ''TXN-0001'', t_member = Some 3,
     total_amount = 15000, payment_method = ''cash'', amount_paid = 15000,
     amount_from_balance = 0, status = ''completed'', t_notes = [],
     items = [\<lparr>item_product = Some 1, quantity = 2\<rparr>]\<rparr>"

definition example_db :: db where
  "example_db = \<lparr>members = [member_a, member_b, member_c],
     balance_transactions = [opening_entry 1 50000, opening_entry 2 5000, opening_entry 3 2000],
     fund_transfer_otps = [intent_a], otp_seq = 2,
     transactions = [sale_c], products = [\<lparr>p_id = 1, stock_quantity = 10\<rparr>]\<rparr>"

text \<open>Member A's session sending the code of the intent; an administrator's refund of the
  sale; the same database with the sale already cancelled.\<close>

definition verify_request :: "string option request" where
  "verify_request = \<lparr>req_user = None, session_member_id = Some 1, data = Some ''123456''\<rparr>"

definition refund_request :: "refund_data option request" where
  "refund_request = \<lparr>req_user = Some admin_user, session_member_id = None,
     data = Some \<lparr>rd_transaction_id = Some 1, rd_reason = ''damaged''\<rparr>\<rparr>"

definition cancelled_db :: db where
  "cancelled_db = example_db\<lparr>transactions := [sale_c\<lparr>status := ''cancelled''\<rparr>]\<rparr>"

text \<open>The database after member A has spent 400.00 elsewhere: the intent of 200.00 is still
  unused and A holds 100.00.\<close>

definition spent_db :: db where
  "spent_db = example_db\<lparr>members := [member_a\<lparr>balance := 10000\<rparr>, member_b, member_c]\<rparr>"

text \<open>The database after the administrator's refund of the sale, and the administrator's
  request to set the status of that transaction to completed.\<close>

definition refunded_db :: db where
  "refunded_db = snd (api_process_refund no_faults [] 2000 example_db refund_request)"

definition update_request :: "update_data option request" where
  "update_request = \<lparr>req_user = Some admin_user, session_member_id = None,
     data = Some \<lparr>ut_transaction_id = Some 1, ut_status = Some ''completed'',
                  ut_payment_method = None, ut_amount_paid = AmountMissing,
                  ut_amount_from_balance = AmountMissing, ut_notes = None\<rparr>\<rparr>"

text \<open>An administrator's refill of 100.00 to member B, and a sequence of the three kinds
  of operation: A's transfer of 200.00 to B, the refund of C's sale, the refill of B.\<close>

definition refill_request :: "refill_data option request" where
  "refill_request = \<lparr>req_user = Some admin_user, session_member_id = None,
     data = Some \<lparr>rf_member_id = Some 2, rf_amount = AmountValue 10000, rf_notes = ''cash''\<rparr>\<rparr>"

definition example_operations :: "operation list" where
  "example_operations =
     [ExecuteTransfer no_faults 1200 verify_request,
      Refund no_faults [] 2000 refund_request,
      Refill no_faults 2500 refill_request]"

section \<open>Lookups and the storage monad\<close>

lemma objects_get_Found: "objects_get P rows = Found x \<longleftrightarrow> filter P rows = [x]"
  by (auto simp: objects_get_def split: list.splits)

lemma objects_get_DoesNotExist: "objects_get P rows = DoesNotExist \<longleftrightarrow> filter P rows = []"
  by (auto simp: objects_get_def split: list.splits)

lemma filter_pk_unique:
  "distinct (map pk rows) \<Longrightarrow> x \<in> set rows \<Longrightarrow> filter (\<lambda>r. pk r = pk x) rows = [x]"
proof (induction rows)
  case Nil
  then show ?case by simp
next
  case (Cons a rows)
  show ?case
  proof (cases "a = x")
    case True
    with Cons.prems have "\<forall>r\<in>set rows. pk r \<noteq> pk x" by (auto simp: image_iff)
    then have "filter (\<lambda>r. pk r = pk x) rows = []" by (simp add: filter_empty_conv)
    with True show ?thesis by simp
  next
    case False
    with Cons.prems have "x \<in> set rows" "pk a \<noteq> pk x" by (auto simp: image_iff)
    with Cons show ?thesis by simp
  qed
qed

lemma pk_determines_row:
  assumes "distinct (map pk rows)" and "x \<in> set rows" and "r \<in> set rows" and "pk r = pk x"
  shows "r = x"
proof -
  have "r \<in> set (filter (\<lambda>r. pk r = pk x) rows)" using assms(3,4) by simp
  then show ?thesis using filter_pk_unique[OF assms(1,2)] by simp
qed

section \<open>Refund of a transaction that is not completed\<close>

text \<open>
  Claim C8. A refund of a transaction whose status is not completed (cancelled or pending)
  is answered with NotRefundable (``Transaction not found or not eligible for refund''),
  whatever the storage does, and the database after the request is the database before it:
  the member's balance, the ledger, the transaction's status and the stock counters are
  unchanged. So a cancelled transaction is never refunded a second time by the refund
  operation itself.
\<close>

theorem refund_rejects_not_completed:
  assumes "req_user request = Some u" and "data request = Some d"
    and "rd_transaction_id d = Some tid" and "tid \<noteq> 0"
    and "distinct (map t_id (transactions s))"
    and "t \<in> set (transactions s)" and "t_id t = tid" and "status t \<noteq> ''completed''"
  shows "api_process_refund raises methods now s request = (Inl NotRefundable, s)"
proof -
  have "\<And>r. r \<in> set (transactions s) \<Longrightarrow> t_id r = t_id t \<Longrightarrow> r = t"
    using pk_determines_row[OF assms(5,6)] by blast
  then have "filter (\<lambda>r. t_id r = tid \<and> status r = ''completed'') (transactions s) = []"
    using assms(7,8) by (auto simp: filter_empty_conv)
  then have "objects_get (\<lambda>r. t_id r = tid \<and> status r = ''completed'') (transactions s) = DoesNotExist"
    by (simp add: objects_get_DoesNotExist)
  then show ?thesis
    using assms(1-4) by (simp add: api_process_refund_def)
qed

theorem refund_rejects_not_completed_witness:
  "api_process_refund no_faults [] 2000 cancelled_db refund_request = (Inl NotRefundable, cancelled_db)
   \<and> status (sale_c\<lparr>status := ''cancelled''\<rparr>) = ''cancelled''
   \<and> balance_of cancelled_db 3 = 2000"
proof -
  have 1: "req_user refund_request = Some admin_user" by (simp add: refund_request_def)
  have 2: "data refund_request = Some \<lparr>rd_transaction_id = Some 1, rd_reason = ''damaged''\<rparr>"
    by (simp add: refund_request_def)
  have 3: "rd_transaction_id \<lparr>rd_transaction_id = Some 1, rd_reason = ''damaged''\<rparr> = Some 1" by simp
  have 4: "(1::nat) \<noteq> 0" by simp
  have 5: "distinct (map t_id (transactions cancelled_db))"
    by (simp add: cancelled_db_def example_db_def)
  have 6: "sale_c\<lparr>status := ''cancelled''\<rparr> \<in> set (transactions cancelled_db)"
    by (simp add: cancelled_db_def example_db_def)
  have 7: "t_id (sale_c\<lparr>status := ''cancelled''\<rparr>) = 1" by (simp add: sale_c_def)
  have 8: "status (sale_c\<lparr>status := ''cancelled''\<rparr>) \<noteq> ''completed''" by simp
  have 9: "balance_of cancelled_db 3 = 2000"
    by (simp add: balance_of_def cancelled_db_def example_db_def member_a_def member_b_def member_c_def)
  show ?thesis
    using refund_rejects_not_completed[OF 1 2 3 4 5 6 7 8, of no_faults "[]" 2000] 9 by simp
qed

section \<open>The storage monad\<close>

lemma perform_Inr: "perform raises w f s = (Inr v, s') \<longleftrightarrow> \<not> raises w \<and> s' = f s"
  by (auto simp: perform_def)

lemma and_then_Inr:
  "and_then f g s = (Inr v, s') \<longleftrightarrow> (\<exists>u s1. f s = (Inr u, s1) \<and> g u s1 = (Inr v, s'))"
  by (auto simp: and_then_def split: prod.splits sum.splits)

lemma refresh_from_db_Inr:
  "refresh_from_db pk s = (Inr m, s') \<longleftrightarrow> filter (\<lambda>r. m_id r = pk) (members s) = [m] \<and> s' = s"
  by (auto simp: refresh_from_db_def objects_get_def split: list.splits)

lemma create_balance_transaction_Inr:
  "create_balance_transaction raises e s = (Inr e', s') \<longleftrightarrow>
     \<not> raises (BalanceTransactionCreate (bt_member e)) \<and> e' = e
     \<and> s' = s\<lparr>balance_transactions := balance_transactions s @ [e]\<rparr>"
  by (auto simp: create_balance_transaction_def and_then_Inr perform_Inr)

lemma save_balance_Inr:
  "save_balance raises pk b s = (Inr v, s') \<longleftrightarrow>
     \<not> raises (MemberSave pk) \<and> s' = update_member pk (\<lambda>m. m\<lparr>balance := b\<rparr>) s"
  by (simp add: save_balance_def perform_Inr)

lemma save_last_transaction_Inr:
  "save_last_transaction raises pk t s = (Inr v, s') \<longleftrightarrow>
     \<not> raises (MemberSave pk) \<and> s' = update_member pk (\<lambda>m. m\<lparr>last_transaction := Some t\<rparr>) s"
  by (simp add: save_last_transaction_def perform_Inr)

lemma mark_as_used_Inr:
  "mark_as_used raises now otp s = (Inr v, s') \<longleftrightarrow>
     \<not> raises (OtpSave (otp_id otp)) \<and>
     s' = s\<lparr>fund_transfer_otps :=
             map (\<lambda>r. if otp_id r = otp_id otp then r\<lparr>is_used := True, verified_at := Some now\<rparr> else r)
               (fund_transfer_otps s)\<rparr>"
  by (simp add: mark_as_used_def perform_Inr)

lemma atomic_Inr: "atomic body s = (Inr v, s') \<longleftrightarrow> body s = (Inr v, s')"
  by (auto simp: atomic_def split: prod.splits sum.splits)

lemma atomic_Inl: "atomic body s = (Inl e, s') \<Longrightarrow> s' = s"
  by (auto simp: atomic_def split: prod.splits sum.splits)

section \<open>Member resolution\<close>

lemma filter_head_member:
  assumes "filter P rows = x # rest"
  shows "x \<in> set rows \<and> P x"
proof -
  have "x \<in> set (filter P rows)" unfolding assms by simp
  then show ?thesis by simp
qed

lemma get_member_from_request_member:
  "get_member_from_request s request = Inr mem \<Longrightarrow> mem \<in> set (members s) \<and> is_active mem"
proof -
  assume a: "get_member_from_request s request = Inr mem"
  have g: "\<And>P rest. filter P (members s) = mem # rest \<Longrightarrow> mem \<in> set (members s) \<and> P mem"
  proof -
    fix P rest assume "filter P (members s) = mem # rest"
    then have "mem \<in> set (filter P (members s))" by simp
    then show "mem \<in> set (members s) \<and> P mem" by simp
  qed
  show ?thesis using a
    by (auto simp: get_member_from_request_def objects_get_Found
        split: option.splits get_result.splits list.splits if_splits dest: g)
qed

section \<open>Execution of a transfer\<close>

lemma verify_transfer_otp_failure:
  "verify_transfer_otp raises now s request = (Inl e, s') \<Longrightarrow> s' = s"
  by (auto simp: verify_transfer_otp_def Let_def
      split: sum.splits bool.splits get_result.splits if_splits prod.splits dest: atomic_Inl)

lemma verify_transfer_otp_success:
  assumes "verify_transfer_otp raises now s request = (Inr r, s')"
  shows "\<exists>mem otp recipient.
      has_permission s request = Inr True
    \<and> get_member_from_request s request = Inr mem
    \<and> strip (case data request of None \<Rightarrow> [] | Some c \<Rightarrow> c) \<noteq> []
    \<and> filter (\<lambda>r. otp_member r = m_id mem
                 \<and> otp_code r = strip (case data request of None \<Rightarrow> [] | Some c \<Rightarrow> c)
                 \<and> is_used r = False) (fund_transfer_otps s) = [otp]
    \<and> is_valid now otp \<and> otp_amount otp \<le> balance mem
    \<and> filter (\<lambda>m. rfid_card_number m = recipient_rfid otp \<and> is_active m) (members s) = [recipient]
    \<and> m_id recipient \<noteq> m_id mem
    \<and> transfer_body raises now mem recipient otp s = (Inr r, s')"
  using assms
  by (auto simp: verify_transfer_otp_def Let_def objects_get_Found atomic_Inr
      split: sum.splits bool.splits get_result.splits if_splits prod.splits)


lemma filter_pk_map:
  assumes "\<And>m. m_id (f m) = m_id m"
  shows "filter (\<lambda>r. m_id r = pk) (map f ms) = map f (filter (\<lambda>r. m_id r = pk) ms)"
  using assms by (induction ms) auto

lemma members_update_member [simp]:
  "members (update_member pk f s) = map (\<lambda>m. if m_id m = pk then f m else m) (members s)"
  by (simp add: update_member_def)

lemma other_update_member [simp]:
  "balance_transactions (update_member pk f s) = balance_transactions s"
  "fund_transfer_otps (update_member pk f s) = fund_transfer_otps s"
  "otp_seq (update_member pk f s) = otp_seq s"
  "transactions (update_member pk f s) = transactions s"
  "products (update_member pk f s) = products s"
  by (simp_all add: update_member_def)

text \<open>The database and the response after the atomic block of a transfer has run.\<close>

lemma transfer_body_success:
  assumes d: "distinct (map m_id (members s))"
    and ms: "mem \<in> set (members s)" and rs: "recipient \<in> set (members s)"
    and ne: "m_id recipient \<noteq> m_id mem"
    and run: "transfer_body raises now mem recipient otp s = (Inr r, s')"
  shows "members s' =
           map (\<lambda>m. if m_id m = m_id mem
                     then m\<lparr>balance := balance mem - otp_amount otp, last_transaction := Some now\<rparr>
                     else if m_id m = m_id recipient
                     then m\<lparr>balance := balance recipient + otp_amount otp, last_transaction := Some now\<rparr>
                     else m) (members s)"
    and "balance_transactions s' =
           balance_transactions s @ [sender_transaction r, recipient_transaction r]"
    and "fund_transfer_otps s' =
           map (\<lambda>r. if otp_id r = otp_id otp then r\<lparr>is_used := True, verified_at := Some now\<rparr> else r)
             (fund_transfer_otps s)"
    and "transactions s' = transactions s" and "products s' = products s"
    and "otp_seq s' = otp_seq s"
    and "sender_transaction r =
           \<lparr>bt_member = m_id mem, bt_transaction_type = deduction, bt_amount = otp_amount otp,
            balance_before = balance mem, balance_after = balance mem - otp_amount otp,
            bt_notes = transfer_notes ''to'' recipient otp, bt_created_at = now\<rparr>"
    and "recipient_transaction r =
           \<lparr>bt_member = m_id recipient, bt_transaction_type = deposit, bt_amount = otp_amount otp,
            balance_before = balance recipient, balance_after = balance recipient + otp_amount otp,
            bt_notes = transfer_notes ''from'' (mem\<lparr>balance := balance mem - otp_amount otp\<rparr>) otp,
            bt_created_at = now\<rparr>"
    and "tr_amount r = otp_amount otp"
proof -
  let ?a = "otp_amount otp"
  let ?up1 = "\<lambda>m. if m_id m = m_id mem then m\<lparr>balance := balance mem - ?a\<rparr> else m"
  let ?up2 = "\<lambda>m. if m_id m = m_id recipient then m\<lparr>balance := balance recipient + ?a\<rparr> else m"
  have fm: "filter (\<lambda>r. m_id r = m_id mem) (members s) = [mem]"
    using d ms by (rule filter_pk_unique)
  have fr: "filter (\<lambda>r. m_id r = m_id recipient) (members s) = [recipient]"
    using d rs by (rule filter_pk_unique)
  have f1: "filter (\<lambda>r. m_id r = m_id mem) (map ?up1 (members s)) = [mem\<lparr>balance := balance mem - ?a\<rparr>]"
    by (subst filter_pk_map) (simp_all add: fm)
  have f2: "filter (\<lambda>r. m_id r = m_id recipient) (map ?up2 (map ?up1 (members s)))
              = [recipient\<lparr>balance := balance recipient + ?a\<rparr>]"
    using ne by (subst filter_pk_map, simp, subst filter_pk_map, simp) (simp add: fr)
  from run obtain s1 s2 mem1 s3 e1 s4 s5 rec1 s6 e2 s7 s8 where
        1: "s1 = s\<lparr>fund_transfer_otps :=
             map (\<lambda>r. if otp_id r = otp_id otp then r\<lparr>is_used := True, verified_at := Some now\<rparr> else r)
               (fund_transfer_otps s)\<rparr>"
    and 2: "s2 = update_member (m_id mem) (\<lambda>m. m\<lparr>balance := balance mem - ?a\<rparr>) s1"
    and 3: "filter (\<lambda>r. m_id r = m_id mem) (members s2) = [mem1]" "s3 = s2"
    and 4: "e1 = \<lparr>bt_member = m_id mem1, bt_transaction_type = deduction, bt_amount = ?a,
                   balance_before = balance mem, balance_after = balance mem1,
                   bt_notes = transfer_notes ''to'' recipient otp, bt_created_at = now\<rparr>"
           "s4 = s3\<lparr>balance_transactions := balance_transactions s3 @ [e1]\<rparr>"
    and 5: "s5 = update_member (m_id recipient) (\<lambda>m. m\<lparr>balance := balance recipient + ?a\<rparr>) s4"
    and 6: "filter (\<lambda>r. m_id r = m_id recipient) (members s5) = [rec1]" "s6 = s5"
    and 7: "e2 = \<lparr>bt_member = m_id rec1, bt_transaction_type = deposit, bt_amount = ?a,
                   balance_before = balance recipient, balance_after = balance rec1,
                   bt_notes = transfer_notes ''from'' mem1 otp, bt_created_at = now\<rparr>"
           "s7 = s6\<lparr>balance_transactions := balance_transactions s6 @ [e2]\<rparr>"
    and 8: "s8 = update_member (m_id mem1) (\<lambda>m. m\<lparr>last_transaction := Some now\<rparr>) s7"
    and 9: "s' = update_member (m_id rec1) (\<lambda>m. m\<lparr>last_transaction := Some now\<rparr>) s8"
    and 10: "r = \<lparr>tr_recipient = rec1, tr_amount = ?a, tr_sender_balance_before = balance mem,
                  tr_sender_balance_after = balance mem1,
                  sender_transaction = e1, recipient_transaction = e2\<rparr>"
    unfolding transfer_body_def Let_def and_then_Inr mark_as_used_Inr save_balance_Inr
      refresh_from_db_Inr create_balance_transaction_Inr save_last_transaction_Inr
    by auto
  have m1: "mem1 = mem\<lparr>balance := balance mem - ?a\<rparr>"
    using 3(1) f1 by (simp add: 2 1)
  have r1: "rec1 = recipient\<lparr>balance := balance recipient + ?a\<rparr>"
    using 6(1) f2 by (simp add: 5 4 3 2 1)
  show "members s' =
           map (\<lambda>m. if m_id m = m_id mem
                     then m\<lparr>balance := balance mem - otp_amount otp, last_transaction := Some now\<rparr>
                     else if m_id m = m_id recipient
                     then m\<lparr>balance := balance recipient + otp_amount otp, last_transaction := Some now\<rparr>
                     else m) (members s)"
    using ne by (simp add: 9 8 7 6 5 4 3 2 1 m1 r1)
  show "balance_transactions s' =
           balance_transactions s @ [sender_transaction r, recipient_transaction r]"
    by (simp add: 10 9 8 7 6 5 4 3 2 1)
  show "fund_transfer_otps s' =
           map (\<lambda>r. if otp_id r = otp_id otp then r\<lparr>is_used := True, verified_at := Some now\<rparr> else r)
             (fund_transfer_otps s)"
    by (simp add: 9 8 7 6 5 4 3 2 1)
  show "transactions s' = transactions s" "products s' = products s" "otp_seq s' = otp_seq s"
    by (simp_all add: 9 8 7 6 5 4 3 2 1)
  show "sender_transaction r =
           \<lparr>bt_member = m_id mem, bt_transaction_type = deduction, bt_amount = otp_amount otp,
            balance_before = balance mem, balance_after = balance mem - otp_amount otp,
            bt_notes = transfer_notes ''to'' recipient otp, bt_created_at = now\<rparr>"
    by (simp add: 10 4 m1)
  show "recipient_transaction r =
           \<lparr>bt_member = m_id recipient, bt_transaction_type = deposit, bt_amount = otp_amount otp,
            balance_before = balance recipient, balance_after = balance recipient + otp_amount otp,
            bt_notes = transfer_notes ''from'' (mem\<lparr>balance := balance mem - otp_amount otp\<rparr>) otp,
            bt_created_at = now\<rparr>"
    by (simp add: 10 7 m1 r1)
  show "tr_amount r = otp_amount otp" by (simp add: 10)
qed


section \<open>Balances and ledger sums\<close>

lemma balance_of_row:
  "distinct (map m_id (members s)) \<Longrightarrow> m \<in> set (members s) \<Longrightarrow> balance_of s (m_id m) = balance m"
  by (simp add: balance_of_def filter_pk_unique)

lemma sum_list_indicator:
  "sum_list (map (\<lambda>m. if P m then (c::int) else 0) xs) = c * int (length (filter P xs))"
  by (induction xs) (auto simp: algebra_simps)

lemma sum_list_map_cong_set:
  "(\<And>x. x \<in> set xs \<Longrightarrow> f x = g x) \<Longrightarrow> sum_list (map f xs) = sum_list (map g xs)"
  by (induction xs) auto

lemma total_balance_two_rows:
  assumes d: "distinct (map m_id ms)" and x: "x \<in> set ms" and y: "y \<in> set ms"
    and ne: "m_id y \<noteq> m_id x"
  shows "sum_list (map balance
           (map (\<lambda>m. if m_id m = m_id x then m\<lparr>balance := balance x - a, last_transaction := t\<rparr>
                      else if m_id m = m_id y then m\<lparr>balance := balance y + a, last_transaction := t\<rparr>
                      else m) ms))
         = sum_list (map balance ms)"
proof -
  let ?g = "\<lambda>m. if m_id m = m_id x then m\<lparr>balance := balance x - a, last_transaction := t\<rparr>
                  else if m_id m = m_id y then m\<lparr>balance := balance y + a, last_transaction := t\<rparr>
                  else m"
  let ?d = "\<lambda>m. balance m + ((if m_id m = m_id x then - a else 0) + (if m_id m = m_id y then a else 0))"
  have "\<And>m. m \<in> set ms \<Longrightarrow> balance (?g m) = ?d m"
  proof -
    fix m assume m: "m \<in> set ms"
    have "m_id m = m_id x \<Longrightarrow> m = x" using pk_determines_row[OF d x m] by simp
    moreover have "m_id m = m_id y \<Longrightarrow> m = y" using pk_determines_row[OF d y m] by simp
    ultimately show "balance (?g m) = ?d m" using ne by auto
  qed
  then have "sum_list (map balance (map ?g ms)) = sum_list (map ?d ms)"
    unfolding map_map o_def by (rule sum_list_map_cong_set)
  also have "\<dots> = sum_list (map balance ms)
                  + (sum_list (map (\<lambda>m. if m_id m = m_id x then - a else 0) ms)
                     + sum_list (map (\<lambda>m. if m_id m = m_id y then a else 0) ms))"
    by (simp add: sum_list_addf)
  also have "\<dots> = sum_list (map balance ms)"
    by (simp add: sum_list_indicator filter_pk_unique[OF d x] filter_pk_unique[OF d y])
  finally show ?thesis .
qed

section \<open>Conservation in a transfer\<close>

text \<open>
  Claim C1. Every successful execution of a transfer (\<open>verify_transfer_otp\<close> answers with
  the transfer record) of the amount A of the matched intent, from the requesting member X
  to the member Y whose card the intent names, lowers X's balance by exactly A, raises Y's
  balance by exactly A and leaves the sum of all balances unchanged. The ledger grows by
  exactly two entries: a deduction of A for X with X's old balance before and the old
  balance minus A after, then a deposit of A for Y with Y's old balance before and the old
  balance plus A after. Primary keys of member rows are unique.
\<close>

theorem transfer_conservation:
  assumes "distinct (map m_id (members s))"
    and "verify_transfer_otp raises now s request = (Inr r, s')"
  shows "\<exists>x y otp.
      get_member_from_request s request = Inr x \<and> x \<in> set (members s)
    \<and> y \<in> set (members s) \<and> rfid_card_number y = recipient_rfid otp \<and> m_id y \<noteq> m_id x
    \<and> otp \<in> set (fund_transfer_otps s) \<and> otp_member otp = m_id x \<and> is_used otp = False
    \<and> tr_amount r = otp_amount otp
    \<and> balance_of s' (m_id x) = balance_of s (m_id x) - otp_amount otp
    \<and> balance_of s' (m_id y) = balance_of s (m_id y) + otp_amount otp
    \<and> total_balance s' = total_balance s
    \<and> balance_transactions s' = balance_transactions s @ [sender_transaction r, recipient_transaction r]
    \<and> bt_member (sender_transaction r) = m_id x
    \<and> bt_transaction_type (sender_transaction r) = deduction
    \<and> bt_amount (sender_transaction r) = otp_amount otp
    \<and> balance_before (sender_transaction r) = balance_of s (m_id x)
    \<and> balance_after (sender_transaction r) = balance_of s (m_id x) - otp_amount otp
    \<and> bt_member (recipient_transaction r) = m_id y
    \<and> bt_transaction_type (recipient_transaction r) = deposit
    \<and> bt_amount (recipient_transaction r) = otp_amount otp
    \<and> balance_before (recipient_transaction r) = balance_of s (m_id y)
    \<and> balance_after (recipient_transaction r) = balance_of s (m_id y) + otp_amount otp"
proof -
  from verify_transfer_otp_success[OF assms(2)] obtain x otp y where
        gm: "get_member_from_request s request = Inr x"
    and fo: "filter (\<lambda>r. otp_member r = m_id x
                 \<and> otp_code r = strip (case data request of None \<Rightarrow> [] | Some c \<Rightarrow> c)
                 \<and> is_used r = False) (fund_transfer_otps s) = [otp]"
    and fy: "filter (\<lambda>m. rfid_card_number m = recipient_rfid otp \<and> is_active m) (members s) = [y]"
    and ne: "m_id y \<noteq> m_id x"
    and run: "transfer_body raises now x y otp s = (Inr r, s')"
    by blast
  have xs: "x \<in> set (members s)" using get_member_from_request_member[OF gm] by simp
  have ys: "y \<in> set (members s)" and yr: "rfid_card_number y = recipient_rfid otp"
    using filter_head_member[OF fy] by simp_all
  have os: "otp \<in> set (fund_transfer_otps s)" "otp_member otp = m_id x" "is_used otp = False"
    using filter_head_member[OF fo] by simp_all
  note post = transfer_body_success[OF assms(1) xs ys ne run]
  have bx: "balance_of s (m_id x) = balance x" and "balance_of s (m_id y) = balance y"
    using balance_of_row[OF assms(1)] xs ys by simp_all
  note by' = this(2)
  have fx: "filter (\<lambda>r. m_id r = m_id x) (members s) = [x]"
    and fy': "filter (\<lambda>r. m_id r = m_id y) (members s) = [y]"
    using filter_pk_unique[OF assms(1)] xs ys by simp_all
  have bx': "balance_of s' (m_id x) = balance x - otp_amount otp"
    unfolding balance_of_def post(1) by (subst filter_pk_map) (simp_all add: fx)
  have by'': "balance_of s' (m_id y) = balance y + otp_amount otp"
    unfolding balance_of_def post(1) using ne by (subst filter_pk_map) (simp_all add: fy')
  have tot: "total_balance s' = total_balance s"
    unfolding total_balance_def post(1) using total_balance_two_rows[OF assms(1) xs ys ne] by simp
  show ?thesis
    apply (rule exI[of _ x], rule exI[of _ y], rule exI[of _ otp])
    using gm xs ys yr ne os bx by' bx' by'' tot post(2,7,8,9) by simp
qed


theorem transfer_conservation_witness:
  "distinct (map m_id (members example_db)) \<and>
   (\<exists>r s'. verify_transfer_otp no_faults 1200 example_db verify_request = (Inr r, s')
      \<and> balance_of s' 1 = 30000 \<and> balance_of s' 2 = 25000
      \<and> total_balance s' = total_balance example_db
      \<and> balance_transactions s' =
          balance_transactions example_db @ [sender_transaction r, recipient_transaction r]
      \<and> bt_transaction_type (sender_transaction r) = deduction
      \<and> balance_before (sender_transaction r) = 50000
      \<and> balance_after (sender_transaction r) = 30000
      \<and> bt_transaction_type (recipient_transaction r) = deposit
      \<and> balance_before (recipient_transaction r) = 5000
      \<and> balance_after (recipient_transaction r) = 25000)"
proof -
  have d: "distinct (map m_id (members example_db))"
    by (simp add: example_db_def member_a_def member_b_def member_c_def)
  have "\<not> isl (fst (verify_transfer_otp no_faults 1200 example_db verify_request))"
    by code_simp
  then obtain r s' where run: "verify_transfer_otp no_faults 1200 example_db verify_request = (Inr r, s')"
    by (cases "verify_transfer_otp no_faults 1200 example_db verify_request";
        cases "fst (verify_transfer_otp no_faults 1200 example_db verify_request)") auto
  from transfer_conservation[OF d run] obtain x y otp where
        f: "get_member_from_request example_db verify_request = Inr x"
           "y \<in> set (members example_db)" "rfid_card_number y = recipient_rfid otp"
           "otp \<in> set (fund_transfer_otps example_db)"
    and g: "balance_of s' (m_id x) = balance_of example_db (m_id x) - otp_amount otp"
           "balance_of s' (m_id y) = balance_of example_db (m_id y) + otp_amount otp"
           "total_balance s' = total_balance example_db"
           "balance_transactions s' =
              balance_transactions example_db @ [sender_transaction r, recipient_transaction r]"
           "bt_transaction_type (sender_transaction r) = deduction"
           "balance_before (sender_transaction r) = balance_of example_db (m_id x)"
           "balance_after (sender_transaction r) = balance_of example_db (m_id x) - otp_amount otp"
           "bt_transaction_type (recipient_transaction r) = deposit"
           "balance_before (recipient_transaction r) = balance_of example_db (m_id y)"
           "balance_after (recipient_transaction r) = balance_of example_db (m_id y) + otp_amount otp"
    by blast
  have "get_member_from_request example_db verify_request = Inr member_a" by code_simp
  with f(1) have x: "x = member_a" by simp
  have o: "otp = intent_a" using f(4) by (simp add: example_db_def)
  have y: "y = member_b"
    using f(2,3) unfolding o
    by (auto simp: example_db_def intent_a_def member_a_def member_b_def member_c_def)
  have b: "balance_of example_db 1 = 50000" "balance_of example_db 2 = 5000"
    by (simp_all add: balance_of_def example_db_def member_a_def member_b_def member_c_def)
  have i: "m_id member_a = 1" "m_id member_b = 2" "otp_amount intent_a = 20000"
    by (simp_all add: member_a_def member_b_def intent_a_def)
  show ?thesis
    using d run g unfolding x y o i b by auto
qed

section \<open>Lookup of a transfer intent\<close>

lemma unused_intent_lookup:
  assumes inv: "at_most_one_unused s"
    and o: "otp \<in> set (fund_transfer_otps s)" "is_used otp = False"
  shows "filter (\<lambda>r. otp_member r = otp_member otp \<and> otp_code r = otp_code otp \<and> is_used r = False)
           (fund_transfer_otps s) = [otp]"
proof -
  have len: "length (unused_otps s (otp_member otp)) \<le> 1"
    using inv o(1) by (simp add: at_most_one_unused_def)
  have mem: "otp \<in> set (unused_otps s (otp_member otp))"
    using o by (simp add: unused_otps_def)
  have u: "unused_otps s (otp_member otp) = [otp]"
  proof (cases "unused_otps s (otp_member otp)")
    case Nil
    with mem show ?thesis by simp
  next
    case (Cons a rest)
    with len have "rest = []" by simp
    with Cons mem show ?thesis by simp
  qed
  have "filter (\<lambda>r. otp_member r = otp_member otp \<and> otp_code r = otp_code otp \<and> is_used r = False)
           (fund_transfer_otps s)
        = filter (\<lambda>r. otp_code r = otp_code otp) (unused_otps s (otp_member otp))"
    unfolding unused_otps_def filter_filter by (rule filter_cong) auto
  then show ?thesis by (simp add: u)
qed

section \<open>Insufficient balance at execution\<close>

lemma insufficient_balance_unchanged:
  assumes "has_permission s request = Inr True"
    and "get_member_from_request s request = Inr mem"
    and "data request = Some c" and "strip c \<noteq> []"
    and "at_most_one_unused s"
    and "otp \<in> set (fund_transfer_otps s)" and "otp_member otp = m_id mem"
    and "otp_code otp = strip c" and "is_used otp = False" and "now \<le> expires_at otp"
    and "balance mem < otp_amount otp"
  shows "verify_transfer_otp raises now s request = (Inl InsufficientBalance, s)"
proof -
  have "objects_get (\<lambda>r. otp_member r = m_id mem \<and> otp_code r = strip c \<and> is_used r = False)
          (fund_transfer_otps s) = Found otp"
    using unused_intent_lookup[OF assms(5,6,9)] assms(7,8) by (simp add: objects_get_Found)
  moreover have "is_valid now otp" using assms(9,10) by (simp add: is_valid_def)
  ultimately show ?thesis
    using assms(1-4,11) by (simp add: verify_transfer_otp_def)
qed

lemma transfer_keeps_nonnegative:
  assumes d: "distinct (map m_id (members s))"
    and nn: "\<forall>m \<in> set (members s). 0 \<le> balance m"
    and pos: "\<forall>r \<in> set (fund_transfer_otps s). is_used r = False \<longrightarrow> 0 \<le> otp_amount r"
  shows "\<forall>m \<in> set (members (snd (verify_transfer_otp raises now s request))). 0 \<le> balance m"
proof (cases "verify_transfer_otp raises now s request")
  case (Pair res s')
  show ?thesis
  proof (cases res)
    case (Inl e)
    with Pair have "s' = s" by (auto dest: verify_transfer_otp_failure)
    with Pair nn show ?thesis by simp
  next
    case (Inr r)
    with Pair have run: "verify_transfer_otp raises now s request = (Inr r, s')" by simp
    from verify_transfer_otp_success[OF run] obtain x otp y where
          gm: "get_member_from_request s request = Inr x"
      and fo: "filter (\<lambda>r. otp_member r = m_id x
                   \<and> otp_code r = strip (case data request of None \<Rightarrow> [] | Some c \<Rightarrow> c)
                   \<and> is_used r = False) (fund_transfer_otps s) = [otp]"
      and le: "otp_amount otp \<le> balance x"
      and fy: "filter (\<lambda>m. rfid_card_number m = recipient_rfid otp \<and> is_active m) (members s) = [y]"
      and ne: "m_id y \<noteq> m_id x"
      and body: "transfer_body raises now x y otp s = (Inr r, s')"
      by blast
    have xs: "x \<in> set (members s)" using get_member_from_request_member[OF gm] by simp
    have ys: "y \<in> set (members s)" using filter_head_member[OF fy] by simp
    have "otp \<in> set (fund_transfer_otps s)" "is_used otp = False"
      using filter_head_member[OF fo] by simp_all
    with pos have a: "0 \<le> otp_amount otp" by blast
    have "0 \<le> balance y" using nn ys by blast
    with a have ry: "0 \<le> balance y + otp_amount otp" by simp
    from le have bx: "0 \<le> balance x - otp_amount otp" by simp
    note post = transfer_body_success(1)[OF d xs ys ne body]
    show ?thesis
      unfolding Pair snd_conv post using nn bx ry by auto
  qed
qed

text \<open>
  Claim C2. When an execution of a transfer reaches the balance check (the request is
  permitted, the sender is resolved, the sent code is that of the sender's unused,
  unexpired intent, of which a sender has at most one) and the sender's balance is strictly
  below the intent's amount, the answer is InsufficientBalance and the database is the one
  before the call, for every storage behaviour: both balances, the ledger and the intent
  (still unused, so the caller can retry) are unchanged. Consequently, when member primary
  keys are unique, every balance is non-negative and no unused intent has a negative amount,
  every balance is non-negative after any execution of a transfer.
\<close>

theorem insufficient_balance_no_change:
  "(has_permission s request = Inr True \<and> get_member_from_request s request = Inr mem
      \<and> data request = Some c \<and> strip c \<noteq> [] \<and> at_most_one_unused s
      \<and> otp \<in> set (fund_transfer_otps s) \<and> otp_member otp = m_id mem
      \<and> otp_code otp = strip c \<and> is_used otp = False \<and> now \<le> expires_at otp
      \<and> balance mem < otp_amount otp
    \<longrightarrow> verify_transfer_otp raises now s request = (Inl InsufficientBalance, s))
   \<and> (distinct (map m_id (members s)) \<and> (\<forall>m \<in> set (members s). 0 \<le> balance m)
      \<and> (\<forall>r \<in> set (fund_transfer_otps s). is_used r = False \<longrightarrow> 0 \<le> otp_amount r)
    \<longrightarrow> (\<forall>m \<in> set (members (snd (verify_transfer_otp raises now s request))). 0 \<le> balance m))"
  using insufficient_balance_unchanged transfer_keeps_nonnegative by blast


theorem insufficient_balance_no_change_witness:
  "verify_transfer_otp no_faults 1200 spent_db verify_request = (Inl InsufficientBalance, spent_db)
   \<and> balance (member_a\<lparr>balance := 10000\<rparr>) < otp_amount intent_a
   \<and> intent_a \<in> set (fund_transfer_otps spent_db) \<and> is_used intent_a = False
   \<and> list_all (\<lambda>m. 0 \<le> balance m)
        (members (snd (verify_transfer_otp no_faults 1200 example_db verify_request)))"
proof -
  have h1: "has_permission spent_db verify_request = Inr True" by code_simp
  have h2: "get_member_from_request spent_db verify_request = Inr (member_a\<lparr>balance := 10000\<rparr>)"
    by code_simp
  have h3: "data verify_request = Some ''123456''" by (simp add: verify_request_def)
  have h4: "strip ''123456'' \<noteq> []" by code_simp
  have h5: "at_most_one_unused spent_db"
    by (simp add: at_most_one_unused_def unused_otps_def spent_db_def example_db_def intent_a_def)
  have h6: "intent_a \<in> set (fund_transfer_otps spent_db)"
    by (simp add: spent_db_def example_db_def)
  have h7: "otp_member intent_a = m_id (member_a\<lparr>balance := 10000\<rparr>)"
    by (simp add: intent_a_def member_a_def)
  have h8: "otp_code intent_a = strip ''123456''" by code_simp
  have h9: "is_used intent_a = False" by (simp add: intent_a_def)
  have h10: "1200 \<le> expires_at intent_a" by (simp add: intent_a_def)
  have h11: "balance (member_a\<lparr>balance := 10000\<rparr>) < otp_amount intent_a"
    by (simp add: intent_a_def)
  have k1: "distinct (map m_id (members example_db))"
    by (simp add: example_db_def member_a_def member_b_def member_c_def)
  have k2: "\<forall>m \<in> set (members example_db). 0 \<le> balance m"
    by (simp add: example_db_def member_a_def member_b_def member_c_def)
  have k3: "\<forall>r \<in> set (fund_transfer_otps example_db). is_used r = False \<longrightarrow> 0 \<le> otp_amount r"
    by (simp add: example_db_def intent_a_def)
  have a: "verify_transfer_otp no_faults 1200 spent_db verify_request = (Inl InsufficientBalance, spent_db)"
    using insufficient_balance_no_change[of spent_db verify_request "member_a\<lparr>balance := 10000\<rparr>"
        "''123456''" intent_a 1200 no_faults]
      h1 h2 h3 h4 h5 h6 h7 h8 h9 h10 h11 by blast
  have b: "\<forall>m \<in> set (members (snd (verify_transfer_otp no_faults 1200 example_db verify_request))).
             0 \<le> balance m"
    using insufficient_balance_no_change[of example_db verify_request _ _ _ 1200 no_faults] k1 k2 k3
    by blast
  show ?thesis using a b h11 h6 h9 by (simp add: list_all_iff)
qed

section \<open>Issuing and expiry of a transfer intent\<close>

lemma create_otp_success:
  assumes "create_otp raises now generated mem rfid amt nts s = (Inr otp, s')"
  shows "otp = \<lparr>otp_id = otp_seq s, otp_member = m_id mem, recipient_rfid = rfid,
                 otp_amount = amt, otp_notes = nts, otp_code = generated, created_at = now,
                 expires_at = now + 600, is_used = False, verified_at = None\<rparr>"
    and "fund_transfer_otps s' =
           otp # filter (\<lambda>r. \<not> (otp_member r = m_id mem \<and> is_used r = False)) (fund_transfer_otps s)"
    and "members s' = members s" and "balance_transactions s' = balance_transactions s"
    and "transactions s' = transactions s" and "products s' = products s"
  using assms
  by (auto simp: create_otp_def and_then_Inr perform_Inr Let_def timedelta_minutes_def)

lemma expired_intent_rejected:
  assumes "has_permission s request = Inr True"
    and "get_member_from_request s request = Inr mem"
    and "data request = Some c" and "strip c \<noteq> []"
    and "at_most_one_unused s"
    and "otp \<in> set (fund_transfer_otps s)" and "otp_member otp = m_id mem"
    and "otp_code otp = strip c" and "is_used otp = False" and "expires_at otp < now"
  shows "verify_transfer_otp raises now s request = (Inl OtpExpired, s)"
proof -
  have "objects_get (\<lambda>r. otp_member r = m_id mem \<and> otp_code r = strip c \<and> is_used r = False)
          (fund_transfer_otps s) = Found otp"
    using unused_intent_lookup[OF assms(5,6,9)] assms(7,8) by (simp add: objects_get_Found)
  moreover have "\<not> is_valid now otp" using assms(10) by (simp add: is_valid_def)
  ultimately show ?thesis
    using assms(1-4) by (simp add: verify_transfer_otp_def)
qed

text \<open>
  Claim C6. An intent is created with expiry time T = creation time + 10 minutes (600
  seconds) and unused. For an unused intent with expiry time T, an execution of the
  transfer at any time strictly greater than T by its sender with the matching code (the
  request is permitted and the sender resolved; a sender has at most one unused intent) is
  answered with OtpExpired, and the database after the call is the database before it:
  balances and ledgers of both parties are unchanged. This holds for every storage
  behaviour.
\<close>

theorem expired_intent_fails:
  "(create_otp raises0 t0 generated mem0 rfid amt nts s0 = (Inr otp0, s1)
    \<longrightarrow> expires_at otp0 = t0 + 600 \<and> created_at otp0 = t0 \<and> is_used otp0 = False
        \<and> otp0 \<in> set (fund_transfer_otps s1))
   \<and> (has_permission s request = Inr True \<and> get_member_from_request s request = Inr mem
      \<and> data request = Some c \<and> strip c \<noteq> [] \<and> at_most_one_unused s
      \<and> otp \<in> set (fund_transfer_otps s) \<and> otp_member otp = m_id mem
      \<and> otp_code otp = strip c \<and> is_used otp = False \<and> expires_at otp < now
    \<longrightarrow> verify_transfer_otp raises now s request = (Inl OtpExpired, s))"
proof (intro conjI impI)
  assume a: "create_otp raises0 t0 generated mem0 rfid amt nts s0 = (Inr otp0, s1)"
  show "expires_at otp0 = t0 + 600" "created_at otp0 = t0" "is_used otp0 = False"
    using create_otp_success(1)[OF a] by simp_all
  show "otp0 \<in> set (fund_transfer_otps s1)"
    using create_otp_success(2)[OF a] by simp
next
  assume "has_permission s request = Inr True \<and> get_member_from_request s request = Inr mem
      \<and> data request = Some c \<and> strip c \<noteq> [] \<and> at_most_one_unused s
      \<and> otp \<in> set (fund_transfer_otps s) \<and> otp_member otp = m_id mem
      \<and> otp_code otp = strip c \<and> is_used otp = False \<and> expires_at otp < now"
  then show "verify_transfer_otp raises now s request = (Inl OtpExpired, s)"
    using expired_intent_rejected by blast
qed

theorem expired_intent_fails_witness:
  "(\<exists>otp0 s1. create_otp no_faults 1000 ''654321'' member_a ''1002'' 20000 [] example_db = (Inr otp0, s1)
      \<and> expires_at otp0 = 1600
      \<and> verify_transfer_otp no_faults 1601 s1
           \<lparr>req_user = None, session_member_id = Some 1, data = Some ''654321''\<rparr>
         = (Inl OtpExpired, s1))
   \<and> verify_transfer_otp no_faults 1601 example_db verify_request = (Inl OtpExpired, example_db)
   \<and> expires_at intent_a < 1601"
proof -
  let ?rq = "\<lparr>req_user = None, session_member_id = Some (1::nat), data = Some ''654321''\<rparr>"
  have "\<not> isl (fst (create_otp no_faults 1000 ''654321'' member_a ''1002'' 20000 [] example_db))"
    by code_simp
  then obtain otp0 s1 where
    c: "create_otp no_faults 1000 ''654321'' member_a ''1002'' 20000 [] example_db = (Inr otp0, s1)"
    by (cases "create_otp no_faults 1000 ''654321'' member_a ''1002'' 20000 [] example_db";
        cases "fst (create_otp no_faults 1000 ''654321'' member_a ''1002'' 20000 [] example_db)") auto
  have e: "expires_at otp0 = 1000 + 600" "is_used otp0 = False" "otp0 \<in> set (fund_transfer_otps s1)"
    using expired_intent_fails[of no_faults 1000 "''654321''" member_a "''1002''" 20000 "[]"
        example_db otp0 s1] c by blast+
  note cs = create_otp_success[OF c]
  have s1: "s1 = snd (create_otp no_faults 1000 ''654321'' member_a ''1002'' 20000 [] example_db)"
    by (simp add: c)
  have g1: "has_permission s1 ?rq = Inr True" unfolding s1 by code_simp
  have g2: "get_member_from_request s1 ?rq = Inr member_a" unfolding s1 by code_simp
  have g4: "strip ''654321'' \<noteq> []" by code_simp
  have g5: "at_most_one_unused s1" unfolding s1 by code_simp
  have g7: "otp_member otp0 = m_id member_a" by (simp add: cs(1))
  have g8: "otp_code otp0 = strip ''654321''" unfolding cs(1) by code_simp
  have g10: "expires_at otp0 < 1601" using e(1) by simp
  have v1: "verify_transfer_otp no_faults 1601 s1 ?rq = (Inl OtpExpired, s1)"
    using expired_intent_fails[of _ _ _ _ _ _ _ _ _ _ s1 ?rq member_a "''654321''" otp0 1601 no_faults]
      g1 g2 g4 g5 e(3) g7 g8 e(2) g10 by simp
  have h1: "has_permission example_db verify_request = Inr True" by code_simp
  have h2: "get_member_from_request example_db verify_request = Inr member_a" by code_simp
  have h3: "data verify_request = Some ''123456''" by (simp add: verify_request_def)
  have h4: "strip ''123456'' \<noteq> []" by code_simp
  have h5: "at_most_one_unused example_db" by code_simp
  have h6: "intent_a \<in> set (fund_transfer_otps example_db)" by (simp add: example_db_def)
  have h7: "otp_member intent_a = m_id member_a" by (simp add: intent_a_def member_a_def)
  have h8: "otp_code intent_a = strip ''123456''" by code_simp
  have h9: "is_used intent_a = False" by (simp add: intent_a_def)
  have h10: "expires_at intent_a < 1601" by (simp add: intent_a_def)
  have v2: "verify_transfer_otp no_faults 1601 example_db verify_request = (Inl OtpExpired, example_db)"
    using expired_intent_fails[of _ _ _ _ _ _ _ _ _ _ example_db verify_request member_a "''123456''"
        intent_a 1601 no_faults]
      h1 h2 h3 h4 h5 h6 h7 h8 h9 h10 by simp
  show ?thesis using c e(1) v1 v2 h10 by auto
qed

section \<open>Member resolution after a transfer\<close>

text \<open>A write that keeps the primary key, the linked user and the active flag of every
  member row does not change who a request is resolved to.\<close>

lemma filter_map_preserved:
  assumes "\<And>m. P (f m) = P m"
  shows "filter P (map f ms) = map f (filter P ms)"
  using assms by (induction ms) auto

lemma has_permission_members_map:
  assumes "\<And>m. m_id (f m) = m_id m" and "\<And>m. is_active (f m) = is_active m"
    and "members s' = map f (members s)"
  shows "has_permission s' request = has_permission s request"
proof -
  have "\<And>mid. filter (\<lambda>m. m_id m = mid \<and> is_active m) (map f (members s))
                = map f (filter (\<lambda>m. m_id m = mid \<and> is_active m) (members s))"
    by (rule filter_map_preserved) (simp add: assms(1,2))
  then show ?thesis
    by (auto simp: has_permission_def objects_get_def assms(3)
        split: option.splits list.splits get_result.splits)
qed

lemma get_member_from_request_members_map:
  assumes "\<And>m. m_id (f m) = m_id m" and "\<And>m. is_active (f m) = is_active m"
    and "\<And>m. m_user (f m) = m_user m"
    and "members s' = map f (members s)"
    and "get_member_from_request s request = Inr mem"
  shows "get_member_from_request s' request = Inr (f mem)"
proof -
  have a: "\<And>mid. filter (\<lambda>m. m_id m = mid \<and> is_active m) (map f (members s))
                = map f (filter (\<lambda>m. m_id m = mid \<and> is_active m) (members s))"
    by (rule filter_map_preserved) (simp add: assms(1,2))
  have b: "\<And>u. filter (\<lambda>m. m_user m = Some u \<and> is_active m) (map f (members s))
                = map f (filter (\<lambda>m. m_user m = Some u \<and> is_active m) (members s))"
    by (rule filter_map_preserved) (simp add: assms(2,3))
  show ?thesis
    using assms(5)
    by (auto simp: get_member_from_request_def objects_get_def assms(4) a b
        split: option.splits list.splits get_result.splits if_splits)
qed

section \<open>A second execution with a consumed code\<close>

text \<open>
  Claim C5, as the code has it. After a successful execution of a transfer, a second
  execution with the same code by the same sender, at any time and for every storage
  behaviour, fails and moves no funds: the database after the second call is the database
  before it, so no balance changes and no ledger entry is written. The answer is
  OtpNotFound (``Invalid or expired OTP code''): the lookup filters on unused intents, so
  a consumed code is answered exactly like a code that was never issued, and the views
  have no separate OtpAlreadyUsed answer.
\<close>

theorem second_execution_not_found:
  assumes d: "distinct (map m_id (members s))"
    and run: "verify_transfer_otp raises now s request = (Inr r, s')"
  shows "verify_transfer_otp raises2 now2 s' request = (Inl OtpNotFound, s')"
proof -
  let ?c = "strip (case data request of None \<Rightarrow> [] | Some c \<Rightarrow> c)"
  from verify_transfer_otp_success[OF run] obtain x otp y where
        hp: "has_permission s request = Inr True"
    and gm: "get_member_from_request s request = Inr x"
    and c: "?c \<noteq> []"
    and fo: "filter (\<lambda>r. otp_member r = m_id x \<and> otp_code r = ?c \<and> is_used r = False)
               (fund_transfer_otps s) = [otp]"
    and fy: "filter (\<lambda>m. rfid_card_number m = recipient_rfid otp \<and> is_active m) (members s) = [y]"
    and ne: "m_id y \<noteq> m_id x"
    and body: "transfer_body raises now x y otp s = (Inr r, s')"
    by blast
  have xs: "x \<in> set (members s)" using get_member_from_request_member[OF gm] by simp
  have ys: "y \<in> set (members s)" using filter_head_member[OF fy] by simp
  note post = transfer_body_success[OF d xs ys ne body]
  let ?g = "\<lambda>m. if m_id m = m_id x
                  then m\<lparr>balance := balance x - otp_amount otp, last_transaction := Some now\<rparr>
                  else if m_id m = m_id y
                  then m\<lparr>balance := balance y + otp_amount otp, last_transaction := Some now\<rparr>
                  else m"
  have hp': "has_permission s' request = Inr True"
    using has_permission_members_map[of ?g s' s request] post(1) hp by simp
  have gm': "get_member_from_request s' request = Inr (?g x)"
    using get_member_from_request_members_map[of ?g s' s request x] post(1) gm by simp
  have "\<And>r. r \<in> set (fund_transfer_otps s) \<Longrightarrow>
            otp_member r = m_id x \<and> otp_code r = ?c \<and> is_used r = False \<Longrightarrow> r = otp"
  proof -
    fix r assume "r \<in> set (fund_transfer_otps s)"
      and "otp_member r = m_id x \<and> otp_code r = ?c \<and> is_used r = False"
    then have "r \<in> set (filter (\<lambda>r. otp_member r = m_id x \<and> otp_code r = ?c \<and> is_used r = False)
                 (fund_transfer_otps s))" by simp
    then show "r = otp" unfolding fo by simp
  qed
  then have "filter (\<lambda>r. otp_member r = m_id x \<and> otp_code r = ?c \<and> is_used r = False)
               (fund_transfer_otps s') = []"
    unfolding post(3) by (auto simp: filter_empty_conv)
  then have "objects_get (\<lambda>r. otp_member r = m_id (?g x) \<and> otp_code r = ?c \<and> is_used r = False)
               (fund_transfer_otps s') = DoesNotExist"
    by (simp add: objects_get_DoesNotExist)
  then show ?thesis
    using hp' gm' c by (simp add: verify_transfer_otp_def Let_def)
qed


theorem second_execution_not_found_witness:
  "\<exists>r s'. verify_transfer_otp no_faults 1200 example_db verify_request = (Inr r, s')
      \<and> verify_transfer_otp no_faults 1250 s' verify_request = (Inl OtpNotFound, s')
      \<and> balance_of s' 1 = 30000"
proof -
  have d: "distinct (map m_id (members example_db))"
    by (simp add: example_db_def member_a_def member_b_def member_c_def)
  have "\<not> isl (fst (verify_transfer_otp no_faults 1200 example_db verify_request))"
    by code_simp
  then obtain r s' where run: "verify_transfer_otp no_faults 1200 example_db verify_request = (Inr r, s')"
    by (cases "verify_transfer_otp no_faults 1200 example_db verify_request";
        cases "fst (verify_transfer_otp no_faults 1200 example_db verify_request)") auto
  have b: "balance_of (snd (verify_transfer_otp no_faults 1200 example_db verify_request)) 1 = 30000"
    by code_simp
  show ?thesis
    using second_execution_not_found[OF d run, of no_faults 1250] run b by auto
qed

text \<open>The claim as stated names the answer OtpAlreadyUsed; the second execution in the
  specification's scenario is answered with OtpNotFound.\<close>

theorem second_execution_counterexample:
  "\<not> isl (fst (verify_transfer_otp no_faults 1200 example_db verify_request))
   \<and> fst (verify_transfer_otp no_faults 1250
            (snd (verify_transfer_otp no_faults 1200 example_db verify_request)) verify_request)
       = Inl OtpNotFound
   \<and> fst (verify_transfer_otp no_faults 1250
            (snd (verify_transfer_otp no_faults 1200 example_db verify_request)) verify_request)
       \<noteq> Inl OtpAlreadyUsed"
  by code_simp

section \<open>Supersession of transfer intents\<close>

lemma create_otp_unused_sender:
  assumes "create_otp raises t0 generated mem rfid amt nts s = (Inr new, s1)"
  shows "unused_otps s1 (m_id mem) = [new]"
proof -
  note cs = create_otp_success[OF assms]
  have "filter (\<lambda>r. otp_member r = m_id mem \<and> is_used r = False)
          (filter (\<lambda>r. \<not> (otp_member r = m_id mem \<and> is_used r = False)) (fund_transfer_otps s)) = []"
    by (auto simp: filter_empty_conv)
  then show ?thesis
    unfolding unused_otps_def cs(2) by (simp add: cs(1))
qed

lemma create_otp_unused_other:
  assumes "create_otp raises t0 generated mem rfid amt nts s = (Inr new, s1)"
    and "pk \<noteq> m_id mem"
  shows "unused_otps s1 pk = unused_otps s pk"
proof -
  note cs = create_otp_success[OF assms(1)]
  have "filter (\<lambda>r. otp_member r = pk \<and> is_used r = False)
          (filter (\<lambda>r. \<not> (otp_member r = m_id mem \<and> is_used r = False)) (fund_transfer_otps s))
        = filter (\<lambda>r. otp_member r = pk \<and> is_used r = False) (fund_transfer_otps s)"
    unfolding filter_filter using assms(2) by (intro filter_cong) auto
  then show ?thesis
    unfolding unused_otps_def cs(2) using assms(2) by (simp add: cs(1))
qed

lemma create_otp_at_most_one_unused:
  assumes c: "create_otp raises t0 generated mem rfid amt nts s = (Inr new, s1)"
    and inv: "at_most_one_unused s"
  shows "at_most_one_unused s1"
  unfolding at_most_one_unused_def
proof
  fix r assume r: "r \<in> set (fund_transfer_otps s1)"
  show "length (unused_otps s1 (otp_member r)) \<le> 1"
  proof (cases "otp_member r = m_id mem")
    case True
    then show ?thesis using create_otp_unused_sender[OF c] by simp
  next
    case False
    note cs = create_otp_success[OF c]
    from r False have "r \<in> set (fund_transfer_otps s)"
      unfolding cs(2) by (auto simp: cs(1))
    then have "length (unused_otps s (otp_member r)) \<le> 1"
      using inv by (simp add: at_most_one_unused_def)
    then show ?thesis using create_otp_unused_other[OF c False] by simp
  qed
qed

lemma superseded_code_not_found:
  assumes c: "create_otp raises t0 generated mem rfid amt nts s = (Inr new, s1)"
    and "has_permission s1 request = Inr True"
    and "get_member_from_request s1 request = Inr mem2" and "m_id mem2 = m_id mem"
    and "data request = Some code" and "strip code \<noteq> []" and "strip code \<noteq> generated"
  shows "verify_transfer_otp raises2 now s1 request = (Inl OtpNotFound, s1)"
proof -
  have "filter (\<lambda>r. otp_member r = m_id mem \<and> otp_code r = strip code \<and> is_used r = False)
          (fund_transfer_otps s1)
        = filter (\<lambda>r. otp_code r = strip code) (unused_otps s1 (m_id mem))"
    unfolding unused_otps_def filter_filter by (rule filter_cong) auto
  also have "\<dots> = []"
    using assms(7) by (simp add: create_otp_unused_sender[OF c] create_otp_success(1)[OF c])
  finally have "objects_get (\<lambda>r. otp_member r = m_id mem2 \<and> otp_code r = strip code \<and> is_used r = False)
          (fund_transfer_otps s1) = DoesNotExist"
    by (simp add: objects_get_DoesNotExist assms(4))
  then show ?thesis
    using assms(2,3,5,6) by (simp add: verify_transfer_otp_def)
qed

text \<open>
  Claim C7, as the code has it. Issuing a new transfer intent (\<open>create_otp\<close> returns the
  intent) removes all prior unused intents of that sender before creating the new one: the
  sender's unused intents afterwards are exactly the new one, and when every sender had at
  most one unused intent before, every sender has at most one afterwards. A subsequent
  execution by that sender with the code of a superseded intent fails with OtpNotFound and
  changes nothing, for every storage behaviour, provided the superseded code differs from
  the freshly drawn code of the new intent: the six digits are drawn at random and a
  collision with the superseded code is not excluded.
\<close>

theorem new_intent_supersedes:
  assumes "create_otp raises t0 generated mem rfid amt nts s = (Inr new, s1)"
  shows "unused_otps s1 (m_id mem) = [new]
    \<and> (at_most_one_unused s \<longrightarrow> at_most_one_unused s1)
    \<and> (old \<in> set (fund_transfer_otps s) \<and> otp_member old = m_id mem \<and> is_used old = False
        \<and> otp_code old \<noteq> generated
        \<and> has_permission s1 request = Inr True
        \<and> get_member_from_request s1 request = Inr mem2 \<and> m_id mem2 = m_id mem
        \<and> data request = Some code \<and> strip code = otp_code old \<and> otp_code old \<noteq> []
       \<longrightarrow> verify_transfer_otp raises2 now s1 request = (Inl OtpNotFound, s1))"
  using create_otp_unused_sender[OF assms] create_otp_at_most_one_unused[OF assms]
    superseded_code_not_found[OF assms, of request mem2 code raises2 now]
  by auto

theorem new_intent_supersedes_witness:
  "\<exists>new s1. create_otp no_faults 1200 ''654321'' member_a ''1002'' 100 [] example_db = (Inr new, s1)
     \<and> unused_otps s1 1 = [new] \<and> at_most_one_unused s1
     \<and> intent_a \<in> set (fund_transfer_otps example_db) \<and> otp_code intent_a = ''123456''
     \<and> verify_transfer_otp no_faults 1300 s1 verify_request = (Inl OtpNotFound, s1)"
proof -
  have "\<not> isl (fst (create_otp no_faults 1200 ''654321'' member_a ''1002'' 100 [] example_db))"
    by code_simp
  then obtain new s1 where
    c: "create_otp no_faults 1200 ''654321'' member_a ''1002'' 100 [] example_db = (Inr new, s1)"
    by (cases "create_otp no_faults 1200 ''654321'' member_a ''1002'' 100 [] example_db";
        cases "fst (create_otp no_faults 1200 ''654321'' member_a ''1002'' 100 [] example_db)") auto
  have s1: "s1 = snd (create_otp no_faults 1200 ''654321'' member_a ''1002'' 100 [] example_db)"
    by (simp add: c)
  have i: "at_most_one_unused example_db" by code_simp
  have o1: "intent_a \<in> set (fund_transfer_otps example_db)" by (simp add: example_db_def)
  have o2: "otp_member intent_a = m_id member_a" "is_used intent_a = False"
    "otp_code intent_a \<noteq> ''654321''" "otp_code intent_a \<noteq> []" "otp_code intent_a = ''123456''"
    by (simp_all add: intent_a_def member_a_def)
  have g1: "has_permission s1 verify_request = Inr True" unfolding s1 by code_simp
  have g2: "get_member_from_request s1 verify_request = Inr member_a" unfolding s1 by code_simp
  have g3: "data verify_request = Some ''123456''" by (simp add: verify_request_def)
  have g4: "strip ''123456'' = otp_code intent_a" by code_simp
  have m: "m_id member_a = 1" by (simp add: member_a_def)
  show ?thesis
    using new_intent_supersedes[OF c, of intent_a verify_request member_a "''123456''" no_faults 1300]
      c i o1 o2 g1 g2 g3 g4 m by auto
qed

text \<open>The claim as stated: the new draw repeats the superseded code, and an execution
  with the superseded intent's code is not answered with OtpNotFound but moves the new
  intent's 1.00.\<close>

theorem superseded_code_counterexample:
  "intent_a \<in> set (fund_transfer_otps example_db) \<and> is_used intent_a = False
   \<and> otp_code intent_a = ''123456''
   \<and> \<not> isl (fst (create_otp no_faults 1200 ''123456'' member_a ''1002'' 100 [] example_db))
   \<and> intent_a \<notin> set (fund_transfer_otps
         (snd (create_otp no_faults 1200 ''123456'' member_a ''1002'' 100 [] example_db)))
   \<and> fst (verify_transfer_otp no_faults 1300
            (snd (create_otp no_faults 1200 ''123456'' member_a ''1002'' 100 [] example_db))
            verify_request) \<noteq> Inl OtpNotFound
   \<and> balance_of (snd (verify_transfer_otp no_faults 1300
            (snd (create_otp no_faults 1200 ''123456'' member_a ''1002'' 100 [] example_db))
            verify_request)) 1 = 49900"
  by code_simp

section \<open>Status updates by the administrator\<close>

lemma strip_status_choice: "st \<in> set STATUS_CHOICES \<Longrightarrow> strip st = st"
proof -
  have "strip ''pending'' = ''pending''" "strip ''completed'' = ''completed''"
    "strip ''cancelled'' = ''cancelled''"
    by code_simp+
  then show "st \<in> set STATUS_CHOICES \<Longrightarrow> strip st = st"
    by (auto simp: STATUS_CHOICES_def)
qed

lemma update_fields_status:
  assumes "ut_status d = Some st" and "st \<in> set STATUS_CHOICES"
  shows "status (update_fields methods d t) = st" and "t_id (update_fields methods d t) = t_id t"
    and "t_member (update_fields methods d t) = t_member t"
    and "total_amount (update_fields methods d t) = total_amount t"
  using assms strip_status_choice[OF assms(2)]
  by (auto simp: update_fields_def Let_def split: option.splits)

lemma save_transaction_Inr:
  "save_transaction raises t s = (Inr v, s') \<longleftrightarrow>
     \<not> raises (TransactionSave (t_id t)) \<and>
     s' = s\<lparr>transactions := map (\<lambda>r. if t_id r = t_id t then t else r) (transactions s)\<rparr>"
  by (simp add: save_transaction_def perform_Inr)

lemma filter_pk_replace:
  assumes "distinct (map t_id rows)" and "t \<in> set rows" and "t_id t' = t_id t"
  shows "filter (\<lambda>r. t_id r = t_id t) (map (\<lambda>r. if t_id r = t_id t' then t' else r) rows) = [t']"
    and "distinct (map t_id (map (\<lambda>r. if t_id r = t_id t' then t' else r) rows))"
proof -
  have m: "map t_id (map (\<lambda>r. if t_id r = t_id t' then t' else r) rows) = map t_id rows"
    by (induction rows) auto
  show "distinct (map t_id (map (\<lambda>r. if t_id r = t_id t' then t' else r) rows))"
    unfolding m by (rule assms(1))
  have "filter (\<lambda>r. t_id r = t_id t) (map (\<lambda>r. if t_id r = t_id t' then t' else r) rows)
        = map (\<lambda>r. if t_id r = t_id t' then t' else r) (filter (\<lambda>r. t_id r = t_id t) rows)"
    using assms(3) by (induction rows) auto
  also have "\<dots> = [t']" using filter_pk_unique[OF assms(1,2)] assms(3) by simp
  finally show "filter (\<lambda>r. t_id r = t_id t) (map (\<lambda>r. if t_id r = t_id t' then t' else r) rows) = [t']" .
qed

lemma refund_eligible:
  assumes "filter (\<lambda>r. t_id r = tid) (transactions s) = [t]" and "status t = ''completed''"
    and "tid \<noteq> 0"
    and "data request = Some d" and "rd_transaction_id d = Some tid"
  shows "fst (api_process_refund raises methods now s request) \<noteq> Inl NotRefundable"
proof -
  have "filter (\<lambda>r. t_id r = tid \<and> status r = ''completed'') (transactions s)
        = filter (\<lambda>r. status r = ''completed'') (filter (\<lambda>r. t_id r = tid) (transactions s))"
    unfolding filter_filter by (rule filter_cong) auto
  then have "objects_get (\<lambda>r. t_id r = tid \<and> status r = ''completed'') (transactions s) = Found t"
    by (simp add: objects_get_Found assms(1,2))
  then show ?thesis
    using assms(3-5)
    by (auto simp: api_process_refund_def refund_access_def Let_def
        split: option.splits sum.splits prod.splits list.splits if_splits)
qed


text \<open>
  Claim C10. For every existing transaction and every status value of the status
  enumeration, \<open>api_update_transaction\<close>, called by an administrator with that value (and
  a save that does not raise), sets the transaction's status to the value whatever the
  current status is; balances and ledger are untouched. In particular a cancelled, already
  refunded transaction can be set back to completed, and then \<open>api_process_refund\<close> no
  longer answers NotRefundable for it: the refund is accepted again, so the transition
  from completed to cancelled is not one-way across the whole interface. Primary keys of
  transactions are unique and positive.
\<close>

theorem update_transaction_sets_any_status:
  assumes "req_user request = Some u" and "is_admin_user s u"
    and "data request = Some d" and "ut_transaction_id d = Some tid" and "tid \<noteq> 0"
    and "distinct (map t_id (transactions s))"
    and "t \<in> set (transactions s)" and "t_id t = tid"
    and "ut_status d = Some st" and "st \<in> set STATUS_CHOICES"
    and "\<not> raises (TransactionSave tid)"
  shows "\<exists>t' s'. api_update_transaction raises methods s request = (Inr t', s')
      \<and> status t' = st \<and> t_id t' = tid \<and> t_member t' = t_member t
      \<and> total_amount t' = total_amount t
      \<and> filter (\<lambda>r. t_id r = tid) (transactions s') = [t']
      \<and> members s' = members s \<and> balance_transactions s' = balance_transactions s
      \<and> (st = ''completed'' \<and> data request2 = Some d2 \<and> rd_transaction_id d2 = Some tid
          \<longrightarrow> fst (api_process_refund raises2 methods2 now s' request2) \<noteq> Inl NotRefundable)"
proof -
  let ?t' = "update_fields methods d t"
  let ?s' = "s\<lparr>transactions := map (\<lambda>r. if t_id r = t_id ?t' then ?t' else r) (transactions s)\<rparr>"
  note uf = update_fields_status[OF assms(9,10), of methods t]
  have get: "objects_get (\<lambda>r. t_id r = tid) (transactions s) = Found t"
    using filter_pk_unique[OF assms(6,7)] assms(8) by (simp add: objects_get_Found)
  have sv: "save_transaction raises ?t' s = (Inr (), ?s')"
    using assms(8,11) by (simp add: save_transaction_Inr uf(2))
  have run: "api_update_transaction raises methods s request = (Inr ?t', ?s')"
    using assms(1-5) get sv by (simp add: api_update_transaction_def Let_def)
  have f: "filter (\<lambda>r. t_id r = tid) (transactions ?s') = [?t']"
    using filter_pk_replace(1)[OF assms(6,7) uf(2)] assms(8) by simp
  have el: "st = ''completed'' \<and> data request2 = Some d2 \<and> rd_transaction_id d2 = Some tid
          \<longrightarrow> fst (api_process_refund raises2 methods2 now ?s' request2) \<noteq> Inl NotRefundable"
    using refund_eligible[OF f _ assms(5), of request2 d2 raises2 methods2 now] uf(1) by blast
  show ?thesis
    apply (rule exI[of _ ?t'], rule exI[of _ ?s'])
    using run uf assms(8) f el by simp
qed

theorem update_transaction_sets_any_status_witness:
  "balance_of example_db 3 = 2000 \<and> balance_of refunded_db 3 = 17000
   \<and> (\<exists>t' s'. api_update_transaction no_faults [] refunded_db update_request = (Inr t', s')
        \<and> status t' = ''completed''
        \<and> fst (api_process_refund no_faults [] 3000 s' refund_request) \<noteq> Inl NotRefundable
        \<and> balance_of (snd (api_process_refund no_faults [] 3000 s' refund_request)) 3 = 32000)"
proof -
  let ?d = "\<lparr>ut_transaction_id = Some 1, ut_status = Some ''completed'',
              ut_payment_method = None, ut_amount_paid = AmountMissing,
              ut_amount_from_balance = AmountMissing, ut_notes = None\<rparr>"
  let ?t = "sale_c\<lparr>status := ''cancelled'', t_notes := ''Refunded. damaged''\<rparr>"
  have tr: "transactions refunded_db = [?t]" by code_simp
  have 1: "req_user update_request = Some admin_user" by (simp add: update_request_def)
  have 2: "is_admin_user refunded_db admin_user" by (simp add: is_admin_user_def admin_user_def)
  have 3: "data update_request = Some ?d" by (simp add: update_request_def)
  have 4: "ut_transaction_id ?d = Some 1" by simp
  have 5: "(1::nat) \<noteq> 0" by simp
  have 6: "distinct (map t_id (transactions refunded_db))" by (simp add: tr)
  have 7: "?t \<in> set (transactions refunded_db)" by (simp add: tr)
  have 8: "t_id ?t = 1" by (simp add: sale_c_def)
  have 9: "ut_status ?d = Some ''completed''" by simp
  have 10: "''completed'' \<in> set STATUS_CHOICES" by (simp add: STATUS_CHOICES_def)
  have 11: "\<not> no_faults (TransactionSave 1)" by (simp add: no_faults_def)
  have r1: "data refund_request = Some \<lparr>rd_transaction_id = Some 1, rd_reason = ''damaged''\<rparr>"
    by (simp add: refund_request_def)
  have "\<exists>t' s'. api_update_transaction no_faults [] refunded_db update_request = (Inr t', s')
      \<and> status t' = ''completed''
      \<and> fst (api_process_refund no_faults [] 3000 s' refund_request) \<noteq> Inl NotRefundable"
    using update_transaction_sets_any_status[where s = refunded_db and request = update_request
        and u = admin_user and d = ?d and tid = 1 and t = ?t and st = "''completed''"
        and raises = no_faults and methods = "[]" and ?request2.0 = refund_request
        and ?d2.0 = "\<lparr>rd_transaction_id = Some 1, rd_reason = ''damaged''\<rparr>"
        and ?raises2.0 = no_faults and ?methods2.0 = "[]" and now = 3000]
      1 2 3 4 5 6 7 8 9 10 11 r1 by auto
  then obtain t' s' where
        a: "api_update_transaction no_faults [] refunded_db update_request = (Inr t', s')"
    and b: "status t' = ''completed''"
    and c: "fst (api_process_refund no_faults [] 3000 s' refund_request) \<noteq> Inl NotRefundable"
    by blast
  have s': "s' = snd (api_update_transaction no_faults [] refunded_db update_request)"
    by (simp add: a)
  have e: "balance_of (snd (api_process_refund no_faults [] 3000 s' refund_request)) 3 = 32000"
    unfolding s' by code_simp
  have b0: "balance_of example_db 3 = 2000" "balance_of refunded_db 3 = 17000" by code_simp+
  show ?thesis using a b c e b0 by auto
qed

section \<open>A refund interrupted after its first writes\<close>

text \<open>
  Claim C3. Every financial operation is all-or-nothing; in particular a refund that fails
  after starting its mutations leaves no partial state. The code does not do this for the
  refund: its writes are not inside an atomic block, and the last \<open>except Exception\<close>
  clause answers "Server error" with the earlier writes kept. In the specification's
  scenario (member C holds 20.00, completed sale of 150.00), when the save of the
  transaction raises, the answer is the error, yet C's balance is 170.00, the deposit
  entry 20.00 to 170.00 is in the ledger, the stock is restored, and the transaction is
  still completed; a retry of the same refund then succeeds and credits C a second time.
\<close>

theorem refund_interrupted_keeps_partial_state:
  "fst (api_process_refund (\<lambda>w. w = TransactionSave 1) [] 2000 example_db refund_request)
     = Inl ServerError
   \<and> balance_of example_db 3 = 2000
   \<and> balance_of (snd (api_process_refund (\<lambda>w. w = TransactionSave 1) [] 2000 example_db
                         refund_request)) 3 = 17000
   \<and> map (\<lambda>e. (bt_transaction_type e, bt_amount e, balance_before e, balance_after e))
        (ledger_of (snd (api_process_refund (\<lambda>w. w = TransactionSave 1) [] 2000 example_db
                           refund_request)) 3)
       = [(deposit, 2000, 0, 2000), (deposit, 15000, 2000, 17000)]
   \<and> map stock_quantity
        (products (snd (api_process_refund (\<lambda>w. w = TransactionSave 1) [] 2000 example_db
                          refund_request))) = [12]
   \<and> map status
        (transactions (snd (api_process_refund (\<lambda>w. w = TransactionSave 1) [] 2000 example_db
                              refund_request))) = [''completed'']
   \<and> balance_of
        (snd (api_process_refund no_faults [] 2100
           (snd (api_process_refund (\<lambda>w. w = TransactionSave 1) [] 2000 example_db refund_request))
           refund_request)) 3 = 32000"
  by code_simp

text \<open>The sibling path: the same kind of failure inside the atomic block of a transfer
  leaves the database as it was.\<close>

lemma transfer_interrupted_rolls_back:
  "verify_transfer_otp (\<lambda>w. w = BalanceTransactionCreate 2) 1200 example_db verify_request
     = (Inl TransferError, example_db)"
  by code_simp

end
